theory Spec2Isabelle
  imports Main
begin

section \<open>Python values, exceptions and dictionaries\<close>

text \<open>
  The plugin core (\<^verbatim>\<open>src/plugins/core\<close>) works on JSON-like values: manifests and
  configuration trees are loaded with \<^verbatim>\<open>json.load\<close> or \<^verbatim>\<open>yaml.safe_load\<close>. Such values
  are trees without shared sub-objects, so they are modelled by value. Floats are left out.
  A Python \<^verbatim>\<open>dict\<close> keeps its keys in insertion order and overwrites a present key in
  place; it is an association list with distinct keys.

  Strings are lists of \<^typ>\<open>char\<close>, that is of code points below 256. On these the
  regular-expression classes of the source (\<^verbatim>\<open>\d\<close>, \<^verbatim>\<open>[a-z0-9.-]\<close> under
  \<^verbatim>\<open>re.IGNORECASE\<close>) are exactly the ASCII classes written below.
\<close>

datatype pyval =
    PNone
  | PBool bool
  | PInt int
  | PStr string
  | PList "pyval list"
  | PDict "(string \<times> pyval) list"

type_synonym pydict = "(string \<times> pyval) list"

text \<open>
  Exceptions are values. Each constructor carries the text \<^verbatim>\<open>str(e)\<close> would give
  (\<open>KeyError\<close> carries the key). \<open>TypeError\<close> is what the interpreter raises when
  \<^verbatim>\<open>re.match\<close> is handed a non-string, or when a non-mapping is indexed or assigned by
  key. \<open>OtherException\<close> is any other \<^verbatim>\<open>Exception\<close> that plugin code raises.
  \<open>Unmodelled\<close> is not an exception: it marks an input that leaves the domain of this model
  (a manifest whose name is not a string), about which nothing is stated.
\<close>

datatype error =
    ValueError string
  | TypeError
  | KeyError string
  | PluginLoadError string
  | CircularDependencyError string
  | MissingDependencyError string
  | OtherException string
  | Unmodelled

text \<open>\<^verbatim>\<open>k in d\<close>, \<^verbatim>\<open>d.get(k)\<close> and \<^verbatim>\<open>d[k] = v\<close> on a dict.\<close>

definition dict_get :: "(string \<times> 'v) list \<Rightarrow> string \<Rightarrow> 'v option" where
  "dict_get d k = map_of d k"

definition dict_has :: "(string \<times> 'v) list \<Rightarrow> string \<Rightarrow> bool" where
  "dict_has d k = (dict_get d k \<noteq> None)"

fun dict_set :: "(string \<times> 'v) list \<Rightarrow> string \<Rightarrow> 'v \<Rightarrow> (string \<times> 'v) list" where
  "dict_set [] k v = [(k, v)]"
| "dict_set ((k', v') # d) k v = (if k' = k then (k, v) # d else (k', v') # dict_set d k v)"

section \<open>Semantic versions (\<^verbatim>\<open>version.py\<close>)\<close>

record semver =
  original :: string
  major :: int
  minor :: int
  patch :: int
  prerelease :: string
  metadata :: string

definition is_digit :: "char \<Rightarrow> bool" where
  "is_digit c = (48 \<le> (of_char c :: nat) \<and> (of_char c :: nat) \<le> 57)"

definition is_lower :: "char \<Rightarrow> bool" where
  "is_lower c = (97 \<le> (of_char c :: nat) \<and> (of_char c :: nat) \<le> 122)"

definition is_upper :: "char \<Rightarrow> bool" where
  "is_upper c = (65 \<le> (of_char c :: nat) \<and> (of_char c :: nat) \<le> 90)"

text \<open>The class \<^verbatim>\<open>[a-z0-9.-]\<close> under \<^verbatim>\<open>re.IGNORECASE\<close>.\<close>

definition is_ident_char :: "char \<Rightarrow> bool" where
  "is_ident_char c = (is_lower c \<or> is_upper c \<or> is_digit c \<or> c = CHR ''.'' \<or> c = CHR ''-'')"

text \<open>\<^verbatim>\<open>int(s)\<close> on a non-empty run of decimal digits.\<close>

definition digit_val :: "char \<Rightarrow> int" where
  "digit_val c = int (of_char c) - 48"

definition int_of_digits :: "string \<Rightarrow> int" where
  "int_of_digits s = foldl (\<lambda>acc c. acc * 10 + digit_val c) 0 s"

text \<open>\<^verbatim>\<open>$\<close> without \<^verbatim>\<open>re.MULTILINE\<close>: the end of the string, or just before a final newline.\<close>

definition at_end :: "string \<Rightarrow> bool" where
  "at_end s = (s = [] \<or> s = [CHR 0x0A])"

text \<open>
  An optional group \<^verbatim>\<open>(?:X([a-z0-9.-]+))?\<close> with leading character \<open>X\<close>: the captured
  text (empty when the group does not take part) and the rest of the input. The class is
  matched greedily; no shorter match can succeed, since the character after a shorter run
  is in the class and so is neither \<^verbatim>\<open>+\<close> nor the end.
\<close>

definition opt_group :: "char \<Rightarrow> string \<Rightarrow> string \<times> string" where
  "opt_group x s =
     (case s of
        [] \<Rightarrow> ([], s)
      | c # r \<Rightarrow>
          if c = x \<and> takeWhile is_ident_char r \<noteq> []
          then (takeWhile is_ident_char r, dropWhile is_ident_char r)
          else ([], s))"

text \<open>A greedy \<^verbatim>\<open>(\d+)\<close>: the digits and the rest, or nothing when there is no digit.\<close>

definition digits1 :: "string \<Rightarrow> (string \<times> string) option" where
  "digits1 s =
     (if takeWhile is_digit s = [] then None
      else Some (takeWhile is_digit s, dropWhile is_digit s))"

definition expect_dot :: "string \<Rightarrow> string option" where
  "expect_dot s = (case s of [] \<Rightarrow> None | c # r \<Rightarrow> if c = CHR ''.'' then Some r else None)"

text \<open>
  \<^verbatim>\<open>re.match(r"^(\d+)\.(\d+)\.(\d+)(?:-([a-z0-9.-]+))?(?:\+([a-z0-9.-]+))?$", s, re.IGNORECASE)\<close>:
  the five groups, \<open>None\<close> when there is no match.
\<close>

definition match_semver :: "string \<Rightarrow> (string \<times> string \<times> string \<times> string \<times> string) option" where
  "match_semver s =
     (case digits1 s of
        None \<Rightarrow> None
      | Some (g1, r1) \<Rightarrow>
          (case expect_dot r1 of
             None \<Rightarrow> None
           | Some r2 \<Rightarrow>
               (case digits1 r2 of
                  None \<Rightarrow> None
                | Some (g2, r3) \<Rightarrow>
                    (case expect_dot r3 of
                       None \<Rightarrow> None
                     | Some r4 \<Rightarrow>
                         (case digits1 r4 of
                            None \<Rightarrow> None
                          | Some (g3, r5) \<Rightarrow>
                              (let (g4, r6) = opt_group (CHR ''-'') r5;
                                   (g5, r7) = opt_group (CHR ''+'') r6
                               in if at_end r7 then Some (g1, g2, g3, g4, g5) else None))))))"

text \<open>\<^verbatim>\<open>SemanticVersion(version_string)\<close>: \<^verbatim>\<open>__init__\<close> with \<^verbatim>\<open>_parse\<close>.\<close>

definition SemanticVersion :: "string \<Rightarrow> error + semver" where
  "SemanticVersion version_string =
     (case match_semver version_string of
        None \<Rightarrow> Inl (ValueError (''Invalid semantic version: '' @ version_string))
      | Some (g1, g2, g3, g4, g5) \<Rightarrow>
          Inr \<lparr> original = version_string,
                major = int_of_digits g1,
                minor = int_of_digits g2,
                patch = int_of_digits g3,
                prerelease = g4,
                metadata = g5 \<rparr>)"

text \<open>\<^verbatim>\<open>str(n)\<close> for an integer.\<close>

fun str_nat :: "nat \<Rightarrow> string" where
  "str_nat n =
     (if n < 10 then [''0123456789'' ! n]
      else str_nat (n div 10) @ [''0123456789'' ! (n mod 10)])"

definition str_int :: "int \<Rightarrow> string" where
  "str_int i = (if i < 0 then CHR ''-'' # str_nat (nat (- i)) else str_nat (nat i))"

text \<open>\<^verbatim>\<open>SemanticVersion.__str__\<close>.\<close>

definition semver_str :: "semver \<Rightarrow> string" where
  "semver_str v =
     (let version = str_int (major v) @ ''.'' @ str_int (minor v) @ ''.'' @ str_int (patch v);
          version = (if prerelease v \<noteq> [] then version @ ''-'' @ prerelease v else version);
          version = (if metadata v \<noteq> [] then version @ ''+'' @ metadata v else version)
      in version)"

text \<open>Python's \<^verbatim>\<open><\<close> on strings: lexicographic on code points, a proper prefix is smaller.\<close>

fun str_lt :: "string \<Rightarrow> string \<Rightarrow> bool" where
  "str_lt [] [] = False"
| "str_lt [] (y # ys) = True"
| "str_lt (x # xs) [] = False"
| "str_lt (x # xs) (y # ys) =
     ((of_char x :: nat) < of_char y \<or> (x = y \<and> str_lt xs ys))"

text \<open>\<^verbatim>\<open>__eq__\<close>, \<^verbatim>\<open>__lt__\<close>, \<^verbatim>\<open>__le__\<close>, \<^verbatim>\<open>__gt__\<close>, \<^verbatim>\<open>__ge__\<close>.\<close>

definition semver_eq :: "semver \<Rightarrow> semver \<Rightarrow> bool" where
  "semver_eq a b =
     (major a = major b \<and> minor a = minor b \<and> patch a = patch b
      \<and> prerelease a = prerelease b)"

definition semver_lt :: "semver \<Rightarrow> semver \<Rightarrow> bool" where
  "semver_lt a b =
     (if major a \<noteq> major b then major a < major b
      else if minor a \<noteq> minor b then minor a < minor b
      else if patch a \<noteq> patch b then patch a < patch b
      else if prerelease a = [] \<and> prerelease b \<noteq> [] then False
      else if prerelease a \<noteq> [] \<and> prerelease b = [] then True
      else if prerelease a \<noteq> [] \<and> prerelease b \<noteq> [] then str_lt (prerelease a) (prerelease b)
      else False)"

definition semver_le :: "semver \<Rightarrow> semver \<Rightarrow> bool" where
  "semver_le a b = (semver_lt a b \<or> semver_eq a b)"

definition semver_gt :: "semver \<Rightarrow> semver \<Rightarrow> bool" where
  "semver_gt a b = (\<not> semver_le a b)"

definition semver_ge :: "semver \<Rightarrow> semver \<Rightarrow> bool" where
  "semver_ge a b = (\<not> semver_lt a b)"

definition is_compatible_with :: "semver \<Rightarrow> semver \<Rightarrow> bool" where
  "is_compatible_with v required_version =
     (if major v \<noteq> major required_version then False
      else semver_ge v required_version)"

text \<open>\<^verbatim>\<open>VersionChecker\<close>: the constructor parses the host version and may raise.\<close>

record version_checker =
  system_version :: semver

definition VersionChecker :: "string \<Rightarrow> error + version_checker" where
  "VersionChecker sv =
     (case SemanticVersion sv of
        Inl e \<Rightarrow> Inl e
      | Inr v \<Rightarrow> Inr \<lparr> system_version = v \<rparr>)"

text \<open>
  \<^verbatim>\<open>check_plugin_compatibility\<close>. The \<^verbatim>\<open>try\<close> catches \<^verbatim>\<open>ValueError\<close> only; any other
  exception of the constructor would pass through.
\<close>

definition check_plugin_compatibility ::
  "version_checker \<Rightarrow> string \<Rightarrow> string \<Rightarrow> error + (bool \<times> string)" where
  "check_plugin_compatibility self plugin_name required_version =
     (case SemanticVersion required_version of
        Inl (ValueError e) \<Rightarrow>
          Inr (False, ''Invalid version format for '' @ plugin_name @ '': '' @ e)
      | Inl other \<Rightarrow> Inl other
      | Inr required \<Rightarrow>
          if is_compatible_with (system_version self) required
          then Inr (True, ''Plugin '' @ plugin_name @ '' is compatible (requires ''
                      @ semver_str required @ '', have ''
                      @ semver_str (system_version self) @ '')'')
          else Inr (False, ''Plugin '' @ plugin_name @ '' requires version ''
                      @ semver_str required @ '' or higher (current version: ''
                      @ semver_str (system_version self) @ '')''))"


section \<open>Dependency resolution (\<^verbatim>\<open>dependencies.py\<close>)\<close>

text \<open>
  \<^verbatim>\<open>dependency_graph\<close> is a dict from plugin name to the list of its dependencies.
  \<^verbatim>\<open>available_plugins\<close> is a Python set; the list stands for the set in the order the
  interpreter iterates it. That order is not specified by the language, so nothing below
  depends on it: the theorems hold for every list. \<open>add_plugin\<close> puts a new name last.

  The nested function \<^verbatim>\<open>visit\<close> of \<^verbatim>\<open>resolve\<close> mutates three variables of the
  enclosing call; they are the record \<open>visit_state\<close>, passed and returned.
  \<^verbatim>\<open>temp_mark.remove(node)\<close> raises \<^verbatim>\<open>KeyError\<close> on an absent element, which is a branch
  of the model. The interpreter's recursion limit is not modelled.
\<close>

definition circular_msg :: "string \<Rightarrow> string" where
  "circular_msg n = ''Circular dependency detected involving plugin: '' @ n"

type_synonym graph = "(string \<times> string list) list"

record visit_state =
  visited :: "string set"
  temp_mark :: "string set"
  load_order :: "string list"

definition graph_get :: "graph \<Rightarrow> string \<Rightarrow> string list" where
  "graph_get g n = (case dict_get g n of None \<Rightarrow> [] | Some ds \<Rightarrow> ds)"

function visit :: "graph \<Rightarrow> string \<Rightarrow> visit_state \<Rightarrow> error + visit_state"
  and visit_deps :: "graph \<Rightarrow> string list \<Rightarrow> visit_state \<Rightarrow> error + visit_state" where
  "visit g node st =
     (if node \<in> temp_mark st
      then Inl (CircularDependencyError (circular_msg node))
      else if node \<notin> visited st
      then (case visit_deps g (graph_get g node) (st\<lparr>temp_mark := insert node (temp_mark st)\<rparr>) of
              Inl e \<Rightarrow> Inl e
            | Inr st1 \<Rightarrow>
                if node \<notin> temp_mark st1 then Inl (KeyError node)
                else Inr (st1\<lparr>temp_mark := temp_mark st1 - {node},
                               visited := insert node (visited st1),
                               load_order := load_order st1 @ [node]\<rparr>))
      else Inr st)"
| "visit_deps g [] st = Inr st"
| "visit_deps g (dep # deps) st =
     (case visit g dep st of
        Inl e \<Rightarrow> Inl e
      | Inr st1 \<Rightarrow> visit_deps g deps st1)"
  by pat_completeness auto


text \<open>
  Termination: an unfinished call keeps its node in \<open>temp_mark\<close>, a call that returns
  leaves \<open>temp_mark\<close> as it found it, and only keys of the graph have dependencies.
\<close>

lemma visit_temp_dom:
  "visit_visit_deps_dom (Inl (g, node, st)) \<Longrightarrow> visit g node st = Inr st' \<Longrightarrow> temp_mark st' = temp_mark st"
  "visit_visit_deps_dom (Inr (g, ds, st)) \<Longrightarrow> visit_deps g ds st = Inr st' \<Longrightarrow> temp_mark st' = temp_mark st"
proof (induction g node st and g ds st arbitrary: st' and st' rule: visit_visit_deps.pinduct)
  case (1 g node st)
  note dom = 1(1) and IH = 1(2) and res = 1(3)
  show ?case
  proof (cases "node \<in> temp_mark st")
    case True
    with res dom show ?thesis by (simp add: visit.psimps)
  next
    case nt: False
    show ?thesis
    proof (cases "node \<in> visited st")
      case True
      with res dom nt show ?thesis by (simp add: visit.psimps)
    next
      case nv: False
      let ?st0 = "st\<lparr>temp_mark := insert node (temp_mark st)\<rparr>"
      from res dom nt nv obtain st1 where
        d: "visit_deps g (graph_get g node) ?st0 = Inr st1" and
        e: "node \<in> temp_mark st1" and
        f: "st' = st1\<lparr>temp_mark := temp_mark st1 - {node},
                               visited := insert node (visited st1),
                               load_order := load_order st1 @ [node]\<rparr>"
        by (simp add: visit.psimps split: sum.splits if_splits)
      from IH[OF nt nv d] have "temp_mark st1 = insert node (temp_mark st)" by simp
      with f nt show ?thesis by auto
    qed
  qed
next
  case (2 g st)
  then show ?case by (simp add: visit_deps.psimps)
next
  case (3 g dep deps st)
  note dom = 3(1) and IH1 = 3(2) and IH2 = 3(3) and res = 3(4)
  from res dom obtain st1 where a: "visit g dep st = Inr st1" and b: "visit_deps g deps st1 = Inr st'"
    by (simp add: visit_deps.psimps split: sum.splits)
  from IH1[OF a] IH2[OF a b] show ?case by simp
qed

termination visit
proof (relation "measures [
    (\<lambda>x. case x of Inl (g, n, st) \<Rightarrow> card (fst ` set g - temp_mark st)
                  | Inr (g, ds, st) \<Rightarrow> card (fst ` set g - temp_mark st)),
    (\<lambda>x. case x of Inl _ \<Rightarrow> 1
                  | Inr (g, ds, st) \<Rightarrow> if ds = [] then 0 else length ds + 1)]", goal_cases)
  case 1
  then show ?case by simp
next
  case (2 g node st)
  show ?case
  proof (cases "node \<in> fst ` set g")
    case True
    have "fst ` set g - insert node (temp_mark st) \<subset> fst ` set g - temp_mark st"
      using True 2 by auto
    then have "card (fst ` set g - insert node (temp_mark st)) < card (fst ` set g - temp_mark st)"
      by (intro psubset_card_mono) auto
    then show ?thesis by simp
  next
    case False
    then have "graph_get g node = []"
      by (simp add: graph_get_def dict_get_def map_of_eq_None_iff[THEN iffD2])
    moreover have "fst ` set g - insert node (temp_mark st) = fst ` set g - temp_mark st"
      using False by auto
    ultimately show ?thesis by simp
  qed
next
  case (3 g dep deps st)
  then show ?case by simp
next
  case (4 g dep deps st st1)
  then have "temp_mark st1 = temp_mark st"
    using visit_temp_dom(1) by blast
  then show ?case by simp
qed



declare visit.simps [simp del]

record dependency_resolver =
  dependency_graph :: graph
  available_plugins :: "string list"

definition DependencyResolver :: dependency_resolver where
  "DependencyResolver = \<lparr>dependency_graph = [], available_plugins = []\<rparr>"

definition set_add :: "string list \<Rightarrow> string \<Rightarrow> string list" where
  "set_add s x = (if x \<in> set s then s else s @ [x])"

definition add_plugin :: "dependency_resolver \<Rightarrow> string \<Rightarrow> string list \<Rightarrow> dependency_resolver" where
  "add_plugin self plugin_name dependencies =
     self\<lparr>available_plugins := set_add (available_plugins self) plugin_name,
          dependency_graph := dict_set (dependency_graph self) plugin_name dependencies\<rparr>"

definition missing_msg :: "string \<Rightarrow> string \<Rightarrow> string" where
  "missing_msg plugin_name dep =
     ''Plugin '' @ [CHR 0x27] @ plugin_name @ [CHR 0x27] @ '' requires '' @ [CHR 0x27] @ dep
       @ [CHR 0x27] @ '' which is not available''"

text \<open>Python's \<^verbatim>\<open>sub in s\<close> on strings: \<open>sub\<close> occurs in \<open>s\<close>.\<close>

fun str_contains :: "string \<Rightarrow> string \<Rightarrow> bool" where
  "str_contains sub [] = (sub = [])"
| "str_contains sub (c # cs) = (take (length sub) (c # cs) = sub \<or> str_contains sub cs)"

fun check_deps :: "string list \<Rightarrow> string \<Rightarrow> string list \<Rightarrow> error + unit" where
  "check_deps avail plugin_name [] = Inr ()"
| "check_deps avail plugin_name (dep # deps) =
     (if dep \<notin> set avail then Inl (MissingDependencyError (missing_msg plugin_name dep))
      else check_deps avail plugin_name deps)"

fun validate_loop :: "string list \<Rightarrow> graph \<Rightarrow> error + unit" where
  "validate_loop avail [] = Inr ()"
| "validate_loop avail ((plugin_name, dependencies) # rest) =
     (case check_deps avail plugin_name dependencies of
        Inl e \<Rightarrow> Inl e
      | Inr _ \<Rightarrow> validate_loop avail rest)"

definition validate_dependencies :: "dependency_resolver \<Rightarrow> error + unit" where
  "validate_dependencies self = validate_loop (available_plugins self) (dependency_graph self)"

fun resolve_loop :: "graph \<Rightarrow> string list \<Rightarrow> visit_state \<Rightarrow> error + visit_state" where
  "resolve_loop g [] st = Inr st"
| "resolve_loop g (plugin # rest) st =
     (if plugin \<notin> visited st
      then (case visit g plugin st of
              Inl e \<Rightarrow> Inl e
            | Inr st1 \<Rightarrow> resolve_loop g rest st1)
      else resolve_loop g rest st)"

definition resolve :: "dependency_resolver \<Rightarrow> error + string list" where
  "resolve self =
     (case validate_dependencies self of
        Inl e \<Rightarrow> Inl e
      | Inr _ \<Rightarrow>
          (case resolve_loop (dependency_graph self) (available_plugins self)
                  \<lparr>visited = {}, temp_mark = {}, load_order = []\<rparr> of
             Inl e \<Rightarrow> Inl e
           | Inr st \<Rightarrow> Inr (load_order st)))"

text \<open>Notions the statements below use: the "depends on" relation, and a load order
  read from its last element backwards, each element's dependencies all loaded earlier.\<close>

definition edges :: "graph \<Rightarrow> (string \<times> string) set" where
  "edges g = {(n, d). d \<in> set (graph_get g n)}"

fun topo_rev :: "graph \<Rightarrow> string list \<Rightarrow> bool" where
  "topo_rev g [] = True"
| "topo_rev g (n # earlier) = (set (graph_get g n) \<subseteq> set earlier \<and> topo_rev g earlier)"

definition st_inv :: "graph \<Rightarrow> string set \<Rightarrow> visit_state \<Rightarrow> bool" where
  "st_inv g A st =
     (set (load_order st) = visited st \<and> distinct (load_order st)
      \<and> visited st \<inter> temp_mark st = {} \<and> visited st \<subseteq> A
      \<and> topo_rev g (rev (load_order st)))"


section \<open>Plugin configuration (\<^verbatim>\<open>config.py\<close>)\<close>

text \<open>
  \<^verbatim>\<open>PluginConfig\<close> holds one configuration tree. \<^verbatim>\<open>key.split('.')\<close> never returns an
  empty list. \<^verbatim>\<open>get\<close> walks the path and gives up at the first segment that is absent
  or whose container is not a dict. \<^verbatim>\<open>set\<close> walks all segments but the last with
  \<^verbatim>\<open>config = config[k]\<close>, creating an empty dict for an absent one, and assigns at the
  last; it mutates in place, so the model returns the tree as the call leaves it together
  with the exception, if any. When \<^verbatim>\<open>config\<close> has become a value that is not a dict
  (\<^verbatim>\<open>None\<close>, a bool, a number, a string, a list), the next operation on it
  (\<^verbatim>\<open>k not in config\<close>, \<^verbatim>\<open>config[k] = {}\<close>, \<^verbatim>\<open>config[k]\<close> or the final assignment)
  raises \<^verbatim>\<open>TypeError\<close> before anything is written.
\<close>

record plugin_config =
  cfg_plugin_name :: string
  config_data :: pydict
  schema :: "pydict option"

definition PluginConfig :: "string \<Rightarrow> pydict option \<Rightarrow> plugin_config" where
  "PluginConfig name data =
     \<lparr>cfg_plugin_name = name,
      config_data = (case data of None \<Rightarrow> [] | Some d \<Rightarrow> d),
      schema = None\<rparr>"

text \<open>\<^verbatim>\<open>str.split(sep)\<close> for a one-character separator.\<close>

fun split_on :: "char \<Rightarrow> string \<Rightarrow> string \<Rightarrow> string list" where
  "split_on sep cur [] = [cur]"
| "split_on sep cur (c # cs) =
     (if c = sep then cur # split_on sep [] cs else split_on sep (cur @ [c]) cs)"

definition split_dot :: "string \<Rightarrow> string list" where
  "split_dot key = split_on (CHR ''.'') [] key"

fun get_walk :: "pyval \<Rightarrow> string list \<Rightarrow> pyval option" where
  "get_walk v [] = Some v"
| "get_walk v (k # ks) =
     (case v of
        PDict d \<Rightarrow> (case dict_get d k of Some v' \<Rightarrow> get_walk v' ks | None \<Rightarrow> None)
      | _ \<Rightarrow> None)"

definition PluginConfig_get :: "plugin_config \<Rightarrow> string \<Rightarrow> pyval \<Rightarrow> pyval" where
  "PluginConfig_get self key default_value =
     (case get_walk (PDict (config_data self)) (split_dot key) of
        Some v \<Rightarrow> v
      | None \<Rightarrow> default_value)"

fun set_walk :: "pydict \<Rightarrow> string list \<Rightarrow> string \<Rightarrow> pyval \<Rightarrow> pydict \<times> error option" where
  "set_walk config [] final v = (dict_set config final v, None)"
| "set_walk config (k # ks) final v =
     (let config1 = (if \<not> dict_has config k then dict_set config k (PDict []) else config)
      in case dict_get config1 k of
           None \<Rightarrow> (config1, Some (KeyError k))
         | Some (PDict child) \<Rightarrow>
             (let (child', err) = set_walk child ks final v
              in (dict_set config1 k (PDict child'), err))
         | Some other \<Rightarrow> (config1, Some TypeError))"

definition PluginConfig_set :: "plugin_config \<Rightarrow> string \<Rightarrow> pyval \<Rightarrow> plugin_config \<times> error option" where
  "PluginConfig_set self key v =
     (let keys = split_dot key;
          (config', err) = set_walk (config_data self) (butlast keys) (last keys) v
      in (self\<lparr>config_data := config'\<rparr>, err))"

text \<open>
  \<^verbatim>\<open>_deep_update(target, source)\<close>: the loop over \<^verbatim>\<open>source.items()\<close>; the first
  equation for a pair is the branch \<^verbatim>\<open>isinstance(value, dict) and key in target and
  isinstance(target[key], dict)\<close>.
\<close>

fun deep_update :: "pydict \<Rightarrow> pydict \<Rightarrow> pydict" where
  "deep_update target [] = target"
| "deep_update target ((key, PDict vd) # source) =
     (case dict_get target key of
        Some (PDict td) \<Rightarrow> deep_update (dict_set target key (PDict (deep_update td vd))) source
      | _ \<Rightarrow> deep_update (dict_set target key (PDict vd)) source)"
| "deep_update target ((key, v) # source) = deep_update (dict_set target key v) source"

definition PluginConfig_update :: "plugin_config \<Rightarrow> pydict \<Rightarrow> plugin_config" where
  "PluginConfig_update self updates =
     self\<lparr>config_data := deep_update (config_data self) updates\<rparr>"


text \<open>What one step of the merge stores at a key, given what was there.\<close>

definition merged_value :: "pyval option \<Rightarrow> pyval \<Rightarrow> pyval" where
  "merged_value old new =
     (case new of
        PDict vd \<Rightarrow> (case old of Some (PDict td) \<Rightarrow> PDict (deep_update td vd) | _ \<Rightarrow> new)
      | _ \<Rightarrow> new)"


section \<open>Manifest validation (\<^verbatim>\<open>manifest.py\<close>)\<close>

text \<open>
  A manifest is a dict from field names to JSON-like values. \<^verbatim>\<open>if not name: return\<close> tests
  Python truthiness. \<^verbatim>\<open>re.match\<close> on a value that is not a string raises
  \<^verbatim>\<open>TypeError\<close>, which \<^verbatim>\<open>validate\<close> does not catch; the validator then keeps the errors
  appended so far, so every check returns the validator together with the exception, if
  any. An f-string inserts a string as it is and anything else through the interpreter's
  \<^verbatim>\<open>str()\<close>; that built-in is not part of the repository and is the parameter \<open>str_of\<close>.
\<close>

fun truthy :: "pyval \<Rightarrow> bool" where
  "truthy PNone = False"
| "truthy (PBool b) = b"
| "truthy (PInt i) = (i \<noteq> 0)"
| "truthy (PStr s) = (s \<noteq> [])"
| "truthy (PList xs) = (xs \<noteq> [])"
| "truthy (PDict d) = (d \<noteq> [])"

text \<open>\<^verbatim>\<open>f"{v}"\<close>.\<close>

definition py_format :: "(pyval \<Rightarrow> string) \<Rightarrow> pyval \<Rightarrow> string" where
  "py_format str_of v = (case v of PStr s \<Rightarrow> s | _ \<Rightarrow> str_of v)"

text \<open>\<^verbatim>\<open>d.get(k, default)\<close>.\<close>

definition get_or :: "pydict \<Rightarrow> string \<Rightarrow> pyval \<Rightarrow> pyval" where
  "get_or d k dflt = (case dict_get d k of None \<Rightarrow> dflt | Some v \<Rightarrow> v)"

definition REQUIRED_FIELDS :: "string list" where
  "REQUIRED_FIELDS = [''name'', ''version'', ''type'', ''entry_point'']"

definition VALID_TYPES :: "string list" where
  "VALID_TYPES = [''hook'', ''validator'', ''quality_check'', ''cli_utility'', ''integration'', ''custom'']"

text \<open>\<^verbatim>\<open>sep.join(xs)\<close>.\<close>

fun join :: "string \<Rightarrow> string list \<Rightarrow> string" where
  "join sep [] = []"
| "join sep [x] = x"
| "join sep (x # y # ys) = x @ sep @ join sep (y # ys)"

record manifest_validator =
  errors :: "string list"

definition ManifestValidator :: manifest_validator where
  "ManifestValidator = \<lparr>errors = []\<rparr>"

definition append_error :: "manifest_validator \<Rightarrow> string \<Rightarrow> manifest_validator" where
  "append_error self msg = self\<lparr>errors := errors self @ [msg]\<rparr>"

definition is_name_char :: "char \<Rightarrow> bool" where
  "is_name_char c = (is_lower c \<or> is_digit c \<or> c = CHR ''_'' \<or> c = CHR ''-'')"

definition is_entry_char :: "char \<Rightarrow> bool" where
  "is_entry_char c =
     (is_lower c \<or> is_upper c \<or> is_digit c \<or> c = CHR ''_'' \<or> c = CHR ''.'' \<or> c = CHR '':'')"

text \<open>
  \<^verbatim>\<open>re.match(r"^[...]+$", s)\<close> for a character class: a non-empty run of the class up to
  the end of the string or to a final newline.
\<close>

definition match_class_plus :: "(char \<Rightarrow> bool) \<Rightarrow> string \<Rightarrow> bool" where
  "match_class_plus cls s = (takeWhile cls s \<noteq> [] \<and> at_end (dropWhile cls s))"

text \<open>\<^verbatim>\<open>re.match(r"^\d+\.\d+\.\d+$", s)\<close>.\<close>

definition match_plain_version :: "string \<Rightarrow> bool" where
  "match_plain_version s =
     (case digits1 s of
        None \<Rightarrow> False
      | Some (g1, r1) \<Rightarrow>
          (case expect_dot r1 of
             None \<Rightarrow> False
           | Some r2 \<Rightarrow>
               (case digits1 r2 of
                  None \<Rightarrow> False
                | Some (g2, r3) \<Rightarrow>
                    (case expect_dot r3 of
                       None \<Rightarrow> False
                     | Some r4 \<Rightarrow>
                         (case digits1 r4 of
                            None \<Rightarrow> False
                          | Some (g3, r5) \<Rightarrow> at_end r5)))))"

fun validate_required_fields_loop :: "manifest_validator \<Rightarrow> pydict \<Rightarrow> string list \<Rightarrow> manifest_validator" where
  "validate_required_fields_loop self manifest [] = self"
| "validate_required_fields_loop self manifest (field # remaining) =
     validate_required_fields_loop
       (if \<not> dict_has manifest field
        then append_error self (''Missing required field: '' @ field)
        else self)
       manifest remaining"

definition validate_required_fields :: "manifest_validator \<Rightarrow> pydict \<Rightarrow> manifest_validator" where
  "validate_required_fields self manifest =
     validate_required_fields_loop self manifest REQUIRED_FIELDS"

definition validate_name :: "manifest_validator \<Rightarrow> pyval \<Rightarrow> manifest_validator \<times> error option" where
  "validate_name self name =
     (if \<not> truthy name then (self, None)
      else case name of
        PStr s \<Rightarrow>
          if \<not> match_class_plus is_name_char s
          then (append_error self
                  (''Invalid plugin name '' @ [CHR 0x27] @ s @ [CHR 0x27]
                    @ ''. Must contain only lowercase letters, ''
                    @ ''numbers, hyphens, and underscores''), None)
          else (self, None)
      | _ \<Rightarrow> (self, Some TypeError))"

text \<open>
  The pattern of \<^verbatim>\<open>_validate_version\<close> is that of \<^verbatim>\<open>SemanticVersion._parse\<close> with
  other groupings; it matches the same strings.
\<close>

definition validate_version :: "manifest_validator \<Rightarrow> pyval \<Rightarrow> manifest_validator \<times> error option" where
  "validate_version self version =
     (if \<not> truthy version then (self, None)
      else case version of
        PStr s \<Rightarrow>
          if match_semver s = None
          then (append_error self
                  (''Invalid version '' @ [CHR 0x27] @ s @ [CHR 0x27]
                    @ ''. Must follow semantic versioning (e.g., 1.0.0)''), None)
          else (self, None)
      | _ \<Rightarrow> (self, Some TypeError))"

text \<open>
  \<^verbatim>\<open>plugin_type not in VALID_TYPES\<close> compares with \<^verbatim>\<open>==\<close>; only a string can equal a
  string.
\<close>

definition validate_type :: "(pyval \<Rightarrow> string) \<Rightarrow> manifest_validator \<Rightarrow> pyval \<Rightarrow> manifest_validator" where
  "validate_type str_of self plugin_type =
     (if \<not> truthy plugin_type then self
      else if plugin_type \<notin> PStr ` set VALID_TYPES
      then append_error self
             (''Invalid plugin type '' @ [CHR 0x27] @ py_format str_of plugin_type @ [CHR 0x27]
               @ ''. Must be one of: '' @ join '', '' VALID_TYPES)
      else self)"

definition validate_entry_point :: "manifest_validator \<Rightarrow> pyval \<Rightarrow> manifest_validator \<times> error option" where
  "validate_entry_point self entry_point =
     (if \<not> truthy entry_point then (self, None)
      else case entry_point of
        PStr s \<Rightarrow>
          if \<not> match_class_plus is_entry_char s
          then (append_error self
                  (''Invalid entry_point '' @ [CHR 0x27] @ s @ [CHR 0x27]
                    @ ''. Must be a valid Python module path (e.g., ''
                    @ [CHR 0x27] @ ''module.ClassName'' @ [CHR 0x27] @ '')''), None)
          else (self, None)
      | _ \<Rightarrow> (self, Some TypeError))"

fun validate_dependencies_loop :: "(pyval \<Rightarrow> string) \<Rightarrow> manifest_validator \<Rightarrow> pyval list \<Rightarrow> manifest_validator" where
  "validate_dependencies_loop str_of self [] = self"
| "validate_dependencies_loop str_of self (dep # deps) =
     validate_dependencies_loop str_of
       (case dep of
          PStr s \<Rightarrow> self
        | _ \<Rightarrow> append_error self
                 (''Invalid dependency: '' @ py_format str_of dep @ ''. Must be a string''))
       deps"

definition manifest_validate_dependencies :: "(pyval \<Rightarrow> string) \<Rightarrow> manifest_validator \<Rightarrow> pyval \<Rightarrow> manifest_validator" where
  "manifest_validate_dependencies str_of self dependencies =
     (case dependencies of
        PList deps \<Rightarrow> validate_dependencies_loop str_of self deps
      | _ \<Rightarrow> append_error self ''Dependencies must be a list'')"

definition validate_requires_version :: "manifest_validator \<Rightarrow> pyval \<Rightarrow> manifest_validator \<times> error option" where
  "validate_requires_version self version =
     (if \<not> truthy version then (self, None)
      else case version of
        PStr s \<Rightarrow>
          if \<not> match_plain_version s
          then (append_error self
                  (''Invalid requires_version '' @ [CHR 0x27] @ s @ [CHR 0x27]
                    @ ''. Must be semantic version (e.g., 1.0.0)''), None)
          else (self, None)
      | _ \<Rightarrow> (self, Some TypeError))"

definition validate :: "(pyval \<Rightarrow> string) \<Rightarrow> manifest_validator \<Rightarrow> pydict \<Rightarrow> manifest_validator \<times> (error + bool)" where
  "validate str_of self manifest =
     (let self = self\<lparr>errors := []\<rparr>;
          self = validate_required_fields self manifest
      in case validate_name self (get_or manifest ''name'' PNone) of
           (self, Some e) \<Rightarrow> (self, Inl e)
         | (self, None) \<Rightarrow>
      (case validate_version self (get_or manifest ''version'' PNone) of
           (self, Some e) \<Rightarrow> (self, Inl e)
         | (self, None) \<Rightarrow>
      (let self = validate_type str_of self (get_or manifest ''type'' PNone)
       in case validate_entry_point self (get_or manifest ''entry_point'' PNone) of
           (self, Some e) \<Rightarrow> (self, Inl e)
         | (self, None) \<Rightarrow>
      (let self = manifest_validate_dependencies str_of self
                    (get_or manifest ''dependencies'' (PList []))
       in case validate_requires_version self
                 (get_or manifest ''requires_version'' (PStr ''0.0.0'')) of
           (self, Some e) \<Rightarrow> (self, Inl e)
         | (self, None) \<Rightarrow> (self, Inr (length (errors self) = 0))))))"

definition get_errors :: "manifest_validator \<Rightarrow> string list" where
  "get_errors self = errors self"

text \<open>A value that \<^verbatim>\<open>re.match\<close> accepts or that the check skips: a string, or falsy.\<close>

definition matchable :: "pyval \<Rightarrow> bool" where
  "matchable v = (case v of PStr s \<Rightarrow> True | _ \<Rightarrow> \<not> truthy v)"


section \<open>Plugin instances and the loader (\<^verbatim>\<open>base.py\<close>, \<^verbatim>\<open>loader.py\<close>)\<close>

text \<open>
  Plugin code is outside the repository's core; a plugin class is modelled by what the
  loader can observe of it: whether it is a subclass of \<^verbatim>\<open>PluginInterface\<close>, and the
  outcome of its constructor, of \<^verbatim>\<open>initialize(config)\<close>, of \<^verbatim>\<open>validate()\<close> and of
  \<^verbatim>\<open>cleanup()\<close>: a returned value (for the two checks, its truthiness) or a raised
  \<^verbatim>\<open>Exception\<close> with its text. A plugin that assigns its own \<^verbatim>\<open>status\<close>, and
  exceptions that are not \<^verbatim>\<open>Exception\<close>s (\<^verbatim>\<open>SystemExit\<close>), are outside the model.
  \<open>cleanup_calls\<close> counts the calls of \<^verbatim>\<open>cleanup()\<close> on an instance.

  The file system and the import machinery are data of the plugin directory:
  \<open>file_at d rel\<close> is what executing the module file \<^verbatim>\<open>d / rel\<close> gives (\<open>None\<close> when
  the file does not exist), \<open>path_str d rel\<close> is \<^verbatim>\<open>str(d / rel)\<close>. A module is the dict
  of its attributes. For a path that ends in \<^verbatim>\<open>.py\<close> the import machinery always finds
  a loader, so the branch \<^verbatim>\<open>spec is None\<close> is never taken.
\<close>

datatype PluginStatus = UNLOADED | LOADING | LOADED | ACTIVE | FAILED | DISABLED

datatype 'a outcome = Returns 'a | Raises string

record plugin_class =
  is_plugin_interface :: bool
  init_outcome :: "pydict \<Rightarrow> unit outcome"
  initialize_outcome :: "pydict \<Rightarrow> pydict \<Rightarrow> bool outcome"
  validate_outcome :: "pydict \<Rightarrow> pydict \<Rightarrow> bool outcome"
  cleanup_outcome :: "unit outcome"

record plugin_instance =
  inst_class :: plugin_class
  inst_manifest :: pydict
  status :: PluginStatus
  cleanup_calls :: nat

datatype module_attr = ClassAttr plugin_class | OtherAttr

type_synonym py_module = "(string \<times> module_attr) list"

record plugin_dir =
  dir_name :: string
  path_str :: "string \<Rightarrow> string"
  file_at :: "string \<Rightarrow> py_module outcome option"

record plugin_info =
  info_manifest :: pydict
  info_directory :: plugin_dir

record plugin_loader =
  version_checker :: version_checker
  loaded_modules :: "(string \<times> py_module) list"

definition PluginLoader :: "version_checker \<Rightarrow> plugin_loader" where
  "PluginLoader vc = \<lparr>version_checker = vc, loaded_modules = []\<rparr>"

text \<open>\<^verbatim>\<open>type(v).__name__\<close>, as it appears in the text of an \<^verbatim>\<open>AttributeError\<close>.\<close>

definition type_name :: "pyval \<Rightarrow> string" where
  "type_name v =
     (case v of
        PNone \<Rightarrow> ''NoneType''
      | PBool b \<Rightarrow> ''bool''
      | PInt i \<Rightarrow> ''int''
      | PStr s \<Rightarrow> ''str''
      | PList xs \<Rightarrow> ''list''
      | PDict d \<Rightarrow> ''dict'')"

text \<open>\<^verbatim>\<open>s.rsplit('.', 1)\<close>: one element without a dot, else the parts around the last dot.\<close>

definition rsplit_dot1 :: "string \<Rightarrow> string list" where
  "rsplit_dot1 s =
     (if CHR ''.'' \<notin> set s then [s]
      else [rev (tl (dropWhile (\<lambda>c. c \<noteq> CHR ''.'') (rev s))),
            rev (takeWhile (\<lambda>c. c \<noteq> CHR ''.'') (rev s))])"

definition replace_dots :: "string \<Rightarrow> string" where
  "replace_dots s = map (\<lambda>c. if c = CHR ''.'' then CHR ''/'' else c) s"

definition wrap_class_error :: "string \<Rightarrow> string \<Rightarrow> error" where
  "wrap_class_error entry_point e =
     PluginLoadError (''Failed to load plugin class '' @ entry_point @ '': '' @ e)"

definition find_module_file :: "plugin_dir \<Rightarrow> string \<Rightarrow> string" where
  "find_module_file plugin_dir module_path =
     (if module_path = ''__init__'' then ''__init__.py''
      else if file_at plugin_dir (replace_dots module_path @ ''.py'') \<noteq> None
      then replace_dots module_path @ ''.py''
      else hd (split_dot module_path) @ ''.py'')"

text \<open>
  The end of \<^verbatim>\<open>_load_plugin_class\<close>: \<^verbatim>\<open>getattr\<close>, then \<^verbatim>\<open>issubclass\<close>. An
  \<^verbatim>\<open>AttributeError\<close> or the \<^verbatim>\<open>TypeError\<close> of \<^verbatim>\<open>issubclass\<close> on a non-class is wrapped
  by the handler \<^verbatim>\<open>except Exception\<close>; a \<^verbatim>\<open>PluginLoadError\<close> passes as it is.
\<close>

definition check_plugin_class :: "string \<Rightarrow> string \<Rightarrow> string \<Rightarrow> py_module \<Rightarrow> error + plugin_class" where
  "check_plugin_class entry_point unique_module_name cls_name module =
     (case dict_get module cls_name of
        None \<Rightarrow>
          Inl (wrap_class_error entry_point
                 (''module '' @ [CHR 0x27] @ unique_module_name @ [CHR 0x27]
                   @ '' has no attribute '' @ [CHR 0x27] @ cls_name @ [CHR 0x27]))
      | Some OtherAttr \<Rightarrow>
          Inl (wrap_class_error entry_point ''issubclass() arg 1 must be a class'')
      | Some (ClassAttr plugin_class) \<Rightarrow>
          if \<not> is_plugin_interface plugin_class
          then Inl (PluginLoadError (cls_name @ '' must inherit from PluginInterface''))
          else Inr plugin_class)"

text \<open>
  \<^verbatim>\<open>_load_plugin_class\<close>. On a non-string entry point \<^verbatim>\<open>entry_point.rsplit\<close> raises
  \<^verbatim>\<open>AttributeError\<close>, which is wrapped. The module is cached only after it has executed.
\<close>

definition load_plugin_class ::
  "(pyval \<Rightarrow> string) \<Rightarrow> plugin_loader \<Rightarrow> pyval \<Rightarrow> plugin_dir
     \<Rightarrow> plugin_loader \<times> (error + plugin_class)" where
  "load_plugin_class str_of self entry_point plugin_dir =
     (case entry_point of
        PStr ep \<Rightarrow>
          (case rsplit_dot1 ep of
             [module_path, cls_name] \<Rightarrow>
               (let unique_module_name =
                      ''plugin_'' @ dir_name plugin_dir @ ''_'' @ module_path
                in if \<not> dict_has (loaded_modules self) unique_module_name
                   then (let module_file = find_module_file plugin_dir module_path
                         in case file_at plugin_dir module_file of
                              None \<Rightarrow>
                                (self, Inl (PluginLoadError
                                   (''Module file not found: '' @ path_str plugin_dir module_file)))
                            | Some (Raises e) \<Rightarrow> (self, Inl (wrap_class_error ep e))
                            | Some (Returns module) \<Rightarrow>
                                (self\<lparr>loaded_modules :=
                                        dict_set (loaded_modules self) unique_module_name module\<rparr>,
                                 check_plugin_class ep unique_module_name cls_name module))
                   else (case dict_get (loaded_modules self) unique_module_name of
                           None \<Rightarrow> (self, Inl (KeyError unique_module_name))
                         | Some module \<Rightarrow>
                             (self, check_plugin_class ep unique_module_name cls_name module)))
           | _ \<Rightarrow> (self, Inl (PluginLoadError (''Invalid entry_point format: '' @ ep))))
      | _ \<Rightarrow>
          (self, Inl (wrap_class_error (py_format str_of entry_point)
                        ([CHR 0x27] @ type_name entry_point @ [CHR 0x27]
                          @ '' object has no attribute '' @ [CHR 0x27] @ ''rsplit''
                          @ [CHR 0x27]))))"

definition wrap_load_error :: "string \<Rightarrow> string \<Rightarrow> error" where
  "wrap_load_error name e = PluginLoadError (''Failed to load plugin '' @ name @ '': '' @ e)"

text \<open>
  The \<^verbatim>\<open>try\<close> block of \<^verbatim>\<open>load_plugin\<close>. Every exception raised in it, the two
  \<^verbatim>\<open>PluginLoadError\<close>s of the block included, reaches \<^verbatim>\<open>except Exception\<close> and is
  raised again inside a new \<^verbatim>\<open>PluginLoadError\<close>. The instance is a local variable of
  the call: on failure the result carries it as the call leaves it (\<open>None\<close> when the
  constructor raised), so that its status can be stated.
\<close>

definition instantiate ::
  "plugin_class \<Rightarrow> pydict \<Rightarrow> string \<Rightarrow> pydict
     \<Rightarrow> (error \<times> plugin_instance option) + plugin_instance" where
  "instantiate plugin_class manifest name config =
     (case init_outcome plugin_class manifest of
        Raises e \<Rightarrow> Inl (wrap_load_error name e, None)
      | Returns _ \<Rightarrow>
          (let plugin_instance =
                 \<lparr>inst_class = plugin_class, inst_manifest = manifest,
                  status = UNLOADED, cleanup_calls = 0\<rparr>;
               plugin_instance = plugin_instance\<lparr>status := LOADING\<rparr>
           in case initialize_outcome plugin_class manifest config of
                Raises e \<Rightarrow> Inl (wrap_load_error name e, Some plugin_instance)
              | Returns ok \<Rightarrow>
                  if \<not> ok
                  then Inl (wrap_load_error name (''Plugin '' @ name @ '' initialization failed''),
                            Some plugin_instance)
                  else (case validate_outcome plugin_class manifest config of
                          Raises e \<Rightarrow> Inl (wrap_load_error name e, Some plugin_instance)
                        | Returns ok \<Rightarrow>
                            if \<not> ok
                            then Inl (wrap_load_error name
                                        (''Plugin '' @ name @ '' validation failed''),
                                      Some plugin_instance)
                            else Inr (plugin_instance\<lparr>status := LOADED\<rparr>))))"

text \<open>
  The version check of \<^verbatim>\<open>load_plugin\<close>; \<^verbatim>\<open>SemanticVersion\<close> on a required version
  that is not a string raises \<^verbatim>\<open>TypeError\<close> from \<^verbatim>\<open>re.match\<close>.
\<close>

definition version_check :: "(pyval \<Rightarrow> string) \<Rightarrow> plugin_loader \<Rightarrow> pydict \<Rightarrow> pyval \<Rightarrow> error + (bool \<times> string)" where
  "version_check str_of self manifest name =
     (case get_or manifest ''requires_version'' (PStr ''0.0.0'') of
        PStr required \<Rightarrow>
          check_plugin_compatibility (version_checker self) (py_format str_of name) required
      | _ \<Rightarrow> Inl TypeError)"

definition PluginLoader_load_plugin ::
  "(pyval \<Rightarrow> string) \<Rightarrow> plugin_loader \<Rightarrow> plugin_info \<Rightarrow> pydict
     \<Rightarrow> plugin_loader \<times> ((error \<times> plugin_instance option) + plugin_instance)" where
  "PluginLoader_load_plugin str_of self plugin_info config =
     (let manifest = info_manifest plugin_info;
          plugin_dir = info_directory plugin_info
      in case dict_get manifest ''name'' of
           None \<Rightarrow> (self, Inl (KeyError ''name'', None))
         | Some name \<Rightarrow>
             (case version_check str_of self manifest name of
                Inl e \<Rightarrow> (self, Inl (e, None))
              | Inr (is_compatible, message) \<Rightarrow>
                  if \<not> is_compatible then (self, Inl (PluginLoadError message, None))
                  else (case dict_get manifest ''entry_point'' of
                          None \<Rightarrow> (self, Inl (KeyError ''entry_point'', None))
                        | Some entry_point \<Rightarrow>
                            (case load_plugin_class str_of self entry_point plugin_dir of
                               (self, Inl e) \<Rightarrow> (self, Inl (e, None))
                             | (self, Inr plugin_class) \<Rightarrow>
                                 (self, instantiate plugin_class manifest
                                          (py_format str_of name) config)))))"


section \<open>The plugin manager (\<^verbatim>\<open>loader.py\<close>)\<close>

text \<open>
  \<open>discovery_result\<close> is what \<^verbatim>\<open>self.discovery.discover()\<close> returns, a scan of the file
  system. The manager's \<^verbatim>\<open>version_checker\<close> is the loader's. Plugin names are strings here
  and dependencies lists of strings, as in every manifest that passed validation with a
  string name; other manifests are \<open>Unmodelled\<close>.
\<close>

record plugin_manager =
  loader :: plugin_loader
  dependency_resolver :: dependency_resolver
  discovery_result :: "plugin_info list"
  discovered_plugins :: "plugin_info list"
  loaded_plugins :: "(string \<times> plugin_instance) list"
  plugin_configs :: "(string \<times> pydict) list"

definition PluginManager :: "plugin_info list \<Rightarrow> string \<Rightarrow> error + plugin_manager" where
  "PluginManager scan system_version_string =
     (case VersionChecker system_version_string of
        Inl e \<Rightarrow> Inl e
      | Inr vc \<Rightarrow>
          Inr \<lparr>loader = PluginLoader vc,
               dependency_resolver = DependencyResolver,
               discovery_result = scan,
               discovered_plugins = [],
               loaded_plugins = [],
               plugin_configs = []\<rparr>)"

definition discover_plugins :: "plugin_manager \<Rightarrow> plugin_manager" where
  "discover_plugins self = self\<lparr>discovered_plugins := discovery_result self\<rparr>"

fun str_list :: "pyval list \<Rightarrow> string list option" where
  "str_list [] = Some []"
| "str_list (PStr s # vs) = (case str_list vs of None \<Rightarrow> None | Some ss \<Rightarrow> Some (s # ss))"
| "str_list (v # vs) = None"

fun register_loop :: "dependency_resolver \<Rightarrow> plugin_info list \<Rightarrow> dependency_resolver \<times> error option" where
  "register_loop r [] = (r, None)"
| "register_loop r (plugin_info # more_infos) =
     (case dict_get (info_manifest plugin_info) ''name'' of
        None \<Rightarrow> (r, Some (KeyError ''name''))
      | Some (PStr name) \<Rightarrow>
          (case get_or (info_manifest plugin_info) ''dependencies'' (PList []) of
             PList deps \<Rightarrow>
               (case str_list deps of
                  Some dependencies \<Rightarrow> register_loop (add_plugin r name dependencies) more_infos
                | None \<Rightarrow> (r, Some Unmodelled))
           | _ \<Rightarrow> (r, Some Unmodelled))
      | Some _ \<Rightarrow> (r, Some Unmodelled))"

text \<open>\<^verbatim>\<open>str(e)\<close>.\<close>

definition exc_str :: "error \<Rightarrow> string" where
  "exc_str e =
     (case e of
        ValueError m \<Rightarrow> m
      | TypeError \<Rightarrow> []
      | KeyError k \<Rightarrow> [CHR 0x27] @ k @ [CHR 0x27]
      | PluginLoadError m \<Rightarrow> m
      | CircularDependencyError m \<Rightarrow> m
      | MissingDependencyError m \<Rightarrow> m
      | OtherException m \<Rightarrow> m
      | Unmodelled \<Rightarrow> [])"

definition is_dependency_error :: "error \<Rightarrow> bool" where
  "is_dependency_error e =
     (case e of CircularDependencyError m \<Rightarrow> True | MissingDependencyError m \<Rightarrow> True | _ \<Rightarrow> False)"

definition find_plugin_info :: "plugin_info list \<Rightarrow> string \<Rightarrow> plugin_info option" where
  "find_plugin_info infos name =
     List.find (\<lambda>p. dict_get (info_manifest p) ''name'' = Some (PStr name)) infos"

fun load_loop :: "(pyval \<Rightarrow> string) \<Rightarrow> plugin_manager \<Rightarrow> string list \<Rightarrow> plugin_manager \<times> error option" where
  "load_loop str_of self [] = (self, None)"
| "load_loop str_of self (name # names) =
     (case find_plugin_info (discovered_plugins self) name of
        None \<Rightarrow> load_loop str_of self names
      | Some plugin_info \<Rightarrow>
          (let config = (case dict_get (plugin_configs self) name of None \<Rightarrow> [] | Some c \<Rightarrow> c)
           in case PluginLoader_load_plugin str_of (loader self) plugin_info config of
                (ld, Inl (e, leftover)) \<Rightarrow> (self\<lparr>loader := ld\<rparr>, Some e)
              | (ld, Inr plugin) \<Rightarrow>
                  load_loop str_of
                    (self\<lparr>loader := ld,
                          loaded_plugins := dict_set (loaded_plugins self) name plugin\<rparr>)
                    names))"

definition load_all_plugins ::
  "(pyval \<Rightarrow> string) \<Rightarrow> plugin_manager \<Rightarrow> (string \<times> pydict) list option
     \<Rightarrow> plugin_manager \<times> error option" where
  "load_all_plugins str_of self configs =
     (let self = (case configs of
                    Some c \<Rightarrow> if c \<noteq> [] then self\<lparr>plugin_configs := c\<rparr> else self
                  | None \<Rightarrow> self);
          self = (if discovered_plugins self = [] then discover_plugins self else self)
      in case register_loop (dependency_resolver self) (discovered_plugins self) of
           (r, Some e) \<Rightarrow> (self\<lparr>dependency_resolver := r\<rparr>, Some e)
         | (r, None) \<Rightarrow>
             (let self = self\<lparr>dependency_resolver := r\<rparr>
              in case resolve (dependency_resolver self) of
                   Inl e \<Rightarrow>
                     if is_dependency_error e
                     then (self, Some (PluginLoadError
                                         (''Dependency resolution failed: '' @ exc_str e)))
                     else (self, Some e)
                 | Inr order \<Rightarrow> load_loop str_of self order))"

text \<open>\<^verbatim>\<open>DependencyResolver.get_dependents\<close> and \<^verbatim>\<open>can_unload\<close>.\<close>

fun get_dependents_loop :: "graph \<Rightarrow> string \<Rightarrow> string list" where
  "get_dependents_loop [] plugin_name = []"
| "get_dependents_loop ((name, deps) # more_items) plugin_name =
     (if plugin_name \<in> set deps then name # get_dependents_loop more_items plugin_name
      else get_dependents_loop more_items plugin_name)"

definition get_dependents :: "dependency_resolver \<Rightarrow> string \<Rightarrow> string list" where
  "get_dependents self plugin_name = get_dependents_loop (dependency_graph self) plugin_name"

definition can_unload :: "dependency_resolver \<Rightarrow> string \<Rightarrow> bool" where
  "can_unload self plugin_name = (length (get_dependents self plugin_name) = 0)"

definition dict_del :: "(string \<times> 'v) list \<Rightarrow> string \<Rightarrow> (string \<times> 'v) list" where
  "dict_del d k = filter (\<lambda>(k', v). k' \<noteq> k) d"

text \<open>
  \<^verbatim>\<open>unload_plugin\<close>. The result carries the instance as the call leaves it; an exception
  of \<^verbatim>\<open>cleanup()\<close> passes through and the plugin stays loaded.
\<close>

definition unload_plugin ::
  "plugin_manager \<Rightarrow> string \<Rightarrow> plugin_manager \<times> (error + plugin_instance option)" where
  "unload_plugin self plugin_name =
     (case dict_get (loaded_plugins self) plugin_name of
        None \<Rightarrow> (self, Inr None)
      | Some plugin \<Rightarrow>
          if \<not> can_unload (dependency_resolver self) plugin_name
          then (self, Inl (PluginLoadError
                  (''Cannot unload '' @ plugin_name @ '': required by ''
                    @ join '', '' (get_dependents (dependency_resolver self) plugin_name))))
          else (case cleanup_outcome (inst_class plugin) of
                  Raises e \<Rightarrow>
                    (self\<lparr>loaded_plugins :=
                           dict_set (loaded_plugins self) plugin_name
                             (plugin\<lparr>cleanup_calls := cleanup_calls plugin + 1\<rparr>)\<rparr>,
                     Inl (OtherException e))
                | Returns _ \<Rightarrow>
                    (self\<lparr>loaded_plugins := dict_del (loaded_plugins self) plugin_name\<rparr>,
                     Inr (Some (plugin\<lparr>cleanup_calls := cleanup_calls plugin + 1,
                                       status := UNLOADED\<rparr>)))))"


section \<open>Example plugins\<close>

text \<open>
  A plugin directory \<^verbatim>\<open>plugins/<name>\<close> with one module \<^verbatim>\<open>main.py\<close> defining one class
  \<^verbatim>\<open>Plugin\<close>, a subclass of \<^verbatim>\<open>PluginInterface\<close> whose \<^verbatim>\<open>initialize\<close> returns the
  given value; its manifest requires host version \<^verbatim>\<open>1.0.0\<close>. And the default host.
\<close>

definition demo_class :: "bool \<Rightarrow> plugin_class" where
  "demo_class init_ok =
     \<lparr>is_plugin_interface = True,
      init_outcome = (\<lambda>m. Returns ()),
      initialize_outcome = (\<lambda>m c. Returns init_ok),
      validate_outcome = (\<lambda>m c. Returns True),
      cleanup_outcome = Returns ()\<rparr>"

definition demo_dir :: "string \<Rightarrow> bool \<Rightarrow> plugin_dir" where
  "demo_dir name init_ok =
     \<lparr>dir_name = name,
      path_str = (\<lambda>rel. ''plugins/'' @ name @ ''/'' @ rel),
      file_at = (\<lambda>rel. if rel = ''main.py''
                         then Some (Returns [(''Plugin'', ClassAttr (demo_class init_ok))])
                         else None)\<rparr>"

definition demo_info :: "string \<Rightarrow> string list \<Rightarrow> bool \<Rightarrow> plugin_info" where
  "demo_info name deps init_ok =
     \<lparr>info_manifest =
        [(''name'', PStr name), (''version'', PStr ''1.0.0''), (''type'', PStr ''custom''),
         (''entry_point'', PStr ''main.Plugin''), (''dependencies'', PList (map PStr deps)),
         (''requires_version'', PStr ''1.0.0'')],
      info_directory = demo_dir name init_ok\<rparr>"


text \<open>
  The same directory and manifest for any class, and a class given by whether it is a
  \<^verbatim>\<open>PluginInterface\<close> subclass and by the outcomes of its constructor, of
  \<^verbatim>\<open>initialize\<close> and of \<^verbatim>\<open>validate\<close>.
\<close>

definition class_dir :: "string \<Rightarrow> plugin_class \<Rightarrow> plugin_dir" where
  "class_dir name cls =
     \<lparr>dir_name = name,
      path_str = (\<lambda>rel. ''plugins/'' @ name @ ''/'' @ rel),
      file_at = (\<lambda>rel. if rel = ''main.py''
                         then Some (Returns [(''Plugin'', ClassAttr cls)])
                         else None)\<rparr>"

definition class_info :: "string \<Rightarrow> plugin_class \<Rightarrow> plugin_info" where
  "class_info name cls =
     \<lparr>info_manifest =
        [(''name'', PStr name), (''version'', PStr ''1.0.0''), (''type'', PStr ''custom''),
         (''entry_point'', PStr ''main.Plugin''), (''requires_version'', PStr ''1.0.0'')],
      info_directory = class_dir name cls\<rparr>"

definition behaving :: "bool \<Rightarrow> unit outcome \<Rightarrow> bool outcome \<Rightarrow> bool outcome \<Rightarrow> plugin_class" where
  "behaving sub ctor ini val =
     \<lparr>is_plugin_interface = sub,
      init_outcome = (\<lambda>m. ctor),
      initialize_outcome = (\<lambda>m c. ini),
      validate_outcome = (\<lambda>m c. val),
      cleanup_outcome = Returns ()\<rparr>"

definition host_1_0_0 :: version_checker where
  "host_1_0_0 = \<lparr>system_version = \<lparr>original = ''1.0.0'', major = 1, minor = 0, patch = 0,
                                     prerelease = [], metadata = []\<rparr>\<rparr>"

section \<open>Properties of semantic versions\<close>

lemmas semver_eval =
  SemanticVersion_def match_semver_def digits1_def expect_dot_def opt_group_def at_end_def
  is_digit_def is_ident_char_def is_lower_def is_upper_def int_of_digits_def digit_val_def

lemma str_lt_total: "(\<not> str_lt a b) = (str_lt b a \<or> a = b)"
  by (induction a b rule: str_lt.induct) auto

lemma semver_ge_alt: "semver_ge v r = (semver_gt v r \<or> semver_eq v r)"
  unfolding semver_ge_def semver_gt_def semver_le_def semver_lt_def semver_eq_def
  using str_lt_total[of "prerelease v" "prerelease r"] str_lt_total[of "prerelease r" "prerelease v"]
  by auto

lemma SemanticVersion_error:
  "SemanticVersion s = Inl e \<Longrightarrow> e = ValueError (''Invalid semantic version: '' @ s)"
  by (auto simp: SemanticVersion_def split: option.splits)

lemma SemanticVersion_2_3_0:
  "SemanticVersion ''2.3.0'' = Inr \<lparr>original = ''2.3.0'', major = 2, minor = 3, patch = 0,
     prerelease = [], metadata = []\<rparr>"
  by (simp add: semver_eval)

lemma SemanticVersion_2_1_0:
  "SemanticVersion ''2.1.0'' = Inr \<lparr>original = ''2.1.0'', major = 2, minor = 1, patch = 0,
     prerelease = [], metadata = []\<rparr>"
  by (simp add: semver_eval)

lemma SemanticVersion_2_0_0:
  "SemanticVersion ''2.0.0'' = Inr \<lparr>original = ''2.0.0'', major = 2, minor = 0, patch = 0,
     prerelease = [], metadata = []\<rparr>"
  by (simp add: semver_eval)

lemma SemanticVersion_1_9_0:
  "SemanticVersion ''1.9.0'' = Inr \<lparr>original = ''1.9.0'', major = 1, minor = 9, patch = 0,
     prerelease = [], metadata = []\<rparr>"
  by (simp add: semver_eval)

lemma SemanticVersion_1_0_0:
  "SemanticVersion ''1.0.0'' = Inr \<lparr>original = ''1.0.0'', major = 1, minor = 0, patch = 0,
     prerelease = [], metadata = []\<rparr>"
  by (simp add: semver_eval)

lemma SemanticVersion_0_0_0:
  "SemanticVersion ''0.0.0'' = Inr \<lparr>original = ''0.0.0'', major = 0, minor = 0, patch = 0,
     prerelease = [], metadata = []\<rparr>"
  by (simp add: semver_eval)

lemma str_lt_lexord:
  "str_lt a b = ((a, b) \<in> lexord {(x, y). (of_char x :: nat) < of_char y})"
  by (induction a b rule: str_lt.induct) auto

lemma str_lt_explicit:
  "str_lt a b =
     ((\<exists>c s. b = a @ c # s)
      \<or> (\<exists>u x y s t. a = u @ x # s \<and> b = u @ y # t \<and> (of_char x :: nat) < of_char y))"
  unfolding str_lt_lexord lexord_def mem_Collect_eq case_prod_conv by blast

lemma is_compatible_with_explicit:
  "is_compatible_with v r =
     (major v = major r
      \<and> (minor r < minor v
          \<or> (minor v = minor r
              \<and> (patch r < patch v
                  \<or> (patch v = patch r
                      \<and> (prerelease v = []
                          \<or> (prerelease r \<noteq> []
                              \<and> \<not> str_lt (prerelease v) (prerelease r))))))))"
  by (auto simp: is_compatible_with_def semver_ge_def semver_lt_def)

text \<open>
  C5. \<open>v.is_compatible_with(r)\<close> holds exactly when the major components are equal and
  \<open>v >= r\<close>; \<open>>=\<close> (the negation of \<open><\<close>) agrees with "\<open>>\<close> or \<open>==\<close>", so it is the
  "greater than or equal" of the defined ordering. Written out, the ordering is: with equal
  majors, \<open>v >= r\<close> when the minor of \<open>v\<close> is greater, or the minors are equal and the patch
  of \<open>v\<close> is greater, or minors and patches are equal and either \<open>v\<close> has no prerelease
  tag, or both have one and the tag of \<open>v\<close> is not below the tag of \<open>r\<close> as plain text;
  "below as plain text" is the lexicographic order of the code points, a proper prefix
  being below. Build metadata plays no part, and the three examples of the specification
  evaluate as stated.
\<close>

theorem is_compatible_with_iff:
  "is_compatible_with v r = (major v = major r \<and> semver_ge v r)
   \<and> semver_ge v r = (semver_gt v r \<or> semver_eq v r)
   \<and> is_compatible_with v r =
       (major v = major r
        \<and> (minor r < minor v
            \<or> (minor v = minor r
                \<and> (patch r < patch v
                    \<or> (patch v = patch r
                        \<and> (prerelease v = []
                            \<or> (prerelease r \<noteq> []
                                \<and> \<not> str_lt (prerelease v) (prerelease r))))))))
   \<and> str_lt s t =
       ((\<exists>c w. t = s @ c # w)
        \<or> (\<exists>u x y w w'. s = u @ x # w \<and> t = u @ y # w' \<and> (of_char x :: nat) < of_char y))
   \<and> is_compatible_with (v\<lparr>metadata := m\<rparr>) (r\<lparr>metadata := m'\<rparr>) = is_compatible_with v r
   \<and> (\<exists>a b. SemanticVersion ''2.3.0'' = Inr a \<and> SemanticVersion ''2.1.0'' = Inr b
          \<and> is_compatible_with a b)
   \<and> (\<exists>a b. SemanticVersion ''1.9.0'' = Inr a \<and> SemanticVersion ''2.0.0'' = Inr b
          \<and> \<not> is_compatible_with a b)
   \<and> (\<exists>a b. SemanticVersion ''2.0.0'' = Inr a \<and> SemanticVersion ''2.1.0'' = Inr b
          \<and> \<not> is_compatible_with a b)"
proof -
  have 1: "is_compatible_with v r = (major v = major r \<and> semver_ge v r)"
    by (simp add: is_compatible_with_def)
  have 3: "is_compatible_with (v\<lparr>metadata := m\<rparr>) (r\<lparr>metadata := m'\<rparr>) = is_compatible_with v r"
    by (simp add: is_compatible_with_def semver_ge_def semver_lt_def)
  have 4: "\<exists>a b. SemanticVersion ''2.3.0'' = Inr a \<and> SemanticVersion ''2.1.0'' = Inr b
          \<and> is_compatible_with a b"
    unfolding SemanticVersion_2_3_0 SemanticVersion_2_1_0
    by (simp add: is_compatible_with_def semver_ge_def semver_lt_def)
  have 5: "\<exists>a b. SemanticVersion ''1.9.0'' = Inr a \<and> SemanticVersion ''2.0.0'' = Inr b
          \<and> \<not> is_compatible_with a b"
    unfolding SemanticVersion_1_9_0 SemanticVersion_2_0_0
    by (simp add: is_compatible_with_def semver_ge_def semver_lt_def)
  have 6: "\<exists>a b. SemanticVersion ''2.0.0'' = Inr a \<and> SemanticVersion ''2.1.0'' = Inr b
          \<and> \<not> is_compatible_with a b"
    unfolding SemanticVersion_2_0_0 SemanticVersion_2_1_0
    by (simp add: is_compatible_with_def semver_ge_def semver_lt_def)
  show ?thesis
    apply (intro conjI)
           apply (rule 1)
          apply (rule semver_ge_alt)
         apply (rule is_compatible_with_explicit)
        apply (rule str_lt_explicit)
       apply (rule 3)
      apply (rule 4)
     apply (rule 5)
    apply (rule 6)
    done
qed

theorem is_compatible_with_iff_witness:
  "is_compatible_with
     \<lparr>original = ''2.3.0'', major = 2, minor = 3, patch = 0, prerelease = [], metadata = []\<rparr>
     \<lparr>original = ''2.1.0'', major = 2, minor = 1, patch = 0, prerelease = [], metadata = ''b7''\<rparr>
   \<and> \<not> is_compatible_with
     \<lparr>original = ''1.0.0-rc1'', major = 1, minor = 0, patch = 0, prerelease = ''rc1'',
        metadata = []\<rparr>
     \<lparr>original = ''1.0.0'', major = 1, minor = 0, patch = 0, prerelease = [], metadata = []\<rparr>
   \<and> \<not> is_compatible_with
     \<lparr>original = ''1.0.0'', major = 1, minor = 0, patch = 0, prerelease = [], metadata = []\<rparr>
     \<lparr>original = ''1.0.5'', major = 1, minor = 0, patch = 5, prerelease = [], metadata = []\<rparr>
   \<and> is_compatible_with
     \<lparr>original = ''1.0.0-beta'', major = 1, minor = 0, patch = 0, prerelease = ''beta'',
        metadata = []\<rparr>
     \<lparr>original = ''1.0.0-alpha'', major = 1, minor = 0, patch = 0, prerelease = ''alpha'',
        metadata = []\<rparr>
   \<and> \<not> is_compatible_with
     \<lparr>original = ''1.0.0-alpha'', major = 1, minor = 0, patch = 0, prerelease = ''alpha'',
        metadata = []\<rparr>
     \<lparr>original = ''1.0.0-beta'', major = 1, minor = 0, patch = 0, prerelease = ''beta'',
        metadata = []\<rparr>"
proof -
  note t = is_compatible_with_iff [THEN conjunct2, THEN conjunct2, THEN conjunct1]
  show ?thesis
    by (simp add: t)
qed

text \<open>
  C9. For every plugin name and every required-version string
  \<open>check_plugin_compatibility\<close> returns a pair and raises nothing; when the
  required-version string does not parse, the pair is \<open>(False, message)\<close>.
\<close>

theorem check_plugin_compatibility_never_raises:
  "(\<exists>b msg. check_plugin_compatibility self plugin_name required_version = Inr (b, msg))
   \<and> (isl (SemanticVersion required_version) \<longrightarrow>
        check_plugin_compatibility self plugin_name required_version =
          Inr (False, ''Invalid version format for '' @ plugin_name
                        @ '': Invalid semantic version: '' @ required_version))"
proof (cases "SemanticVersion required_version")
  case (Inl e)
  then have "e = ValueError (''Invalid semantic version: '' @ required_version)"
    by (rule SemanticVersion_error)
  with Inl have eq: "SemanticVersion required_version =
      Inl (ValueError (''Invalid semantic version: '' @ required_version))"
    by simp
  have "check_plugin_compatibility self plugin_name required_version =
          Inr (False, ''Invalid version format for '' @ plugin_name
                        @ '': Invalid semantic version: '' @ required_version)"
    unfolding check_plugin_compatibility_def eq by simp
  then show ?thesis by blast
next
  case (Inr required)
  then show ?thesis by (auto simp: check_plugin_compatibility_def)
qed

theorem check_plugin_compatibility_never_raises_witness:
  "isl (SemanticVersion ''one.two'')
   \<and> check_plugin_compatibility
        \<lparr>system_version = \<lparr>original = ''1.0.0'', major = 1, minor = 0, patch = 0,
                            prerelease = [], metadata = []\<rparr>\<rparr>
        ''demo'' ''one.two''
       = Inr (False, ''Invalid version format for demo: Invalid semantic version: one.two'')"
proof -
  have h: "isl (SemanticVersion ''one.two'')"
    by (simp add: semver_eval)
  from h check_plugin_compatibility_never_raises
         [of "\<lparr>system_version = \<lparr>original = ''1.0.0'', major = 1, minor = 0, patch = 0,
                            prerelease = [], metadata = []\<rparr>\<rparr>" "''demo''" "''one.two''"]
  show ?thesis by simp
qed

section \<open>Properties of dependency resolution\<close>

lemma visit_temp:
  "visit g node st = Inr st' \<Longrightarrow> temp_mark st' = temp_mark st"
  "visit_deps g ds st = Inr st' \<Longrightarrow> temp_mark st' = temp_mark st"
proof (induction g node st and g ds st arbitrary: st' and st' rule: visit_visit_deps.induct)
  case (1 g node st)
  note IH = 1(1) and res = 1(2)
  show ?case
  proof (cases "node \<in> temp_mark st \<or> node \<in> visited st")
    case True
    with res show ?thesis by (auto simp: visit.simps split: if_splits)
  next
    case False
    then have nt: "node \<notin> temp_mark st" and nv: "node \<notin> visited st" by auto
    let ?st0 = "st\<lparr>temp_mark := insert node (temp_mark st)\<rparr>"
    from res nt nv obtain st1 where
      d: "visit_deps g (graph_get g node) ?st0 = Inr st1" and
      f: "st' = st1\<lparr>temp_mark := temp_mark st1 - {node},
                             visited := insert node (visited st1),
                             load_order := load_order st1 @ [node]\<rparr>"
      by (simp add: visit.simps split: sum.splits if_splits)
    from IH[OF nt nv d] have "temp_mark st1 = insert node (temp_mark st)" by simp
    with f nt show ?thesis by auto
  qed
next
  case (2 g st)
  then show ?case by simp
next
  case (3 g dep deps st)
  note IH1 = 3(1) and IH2 = 3(2) and res = 3(3)
  from res obtain st1 where a: "visit g dep st = Inr st1" and b: "visit_deps g deps st1 = Inr st'"
    by (simp split: sum.splits)
  from IH1[OF a] IH2[OF a b] show ?case by simp
qed

lemma visit_inv:
  "visit g node st = Inr st' \<Longrightarrow> st_inv g A st \<Longrightarrow> node \<in> A
   \<Longrightarrow> \<forall>n. set (graph_get g n) \<subseteq> A
   \<Longrightarrow> st_inv g A st' \<and> node \<in> visited st' \<and> visited st \<subseteq> visited st'"
  "visit_deps g ds st = Inr st' \<Longrightarrow> st_inv g A st \<Longrightarrow> set ds \<subseteq> A
   \<Longrightarrow> \<forall>n. set (graph_get g n) \<subseteq> A
   \<Longrightarrow> st_inv g A st' \<and> set ds \<subseteq> visited st' \<and> visited st \<subseteq> visited st'"
proof (induction g node st and g ds st arbitrary: st' and st' rule: visit_visit_deps.induct)
  case (1 g node st)
  note IH = 1(1) and res = 1(2) and inv = 1(3) and nA = 1(4) and cl = 1(5)
  show ?case
  proof (cases "node \<in> temp_mark st \<or> node \<in> visited st")
    case True
    with res inv show ?thesis by (auto simp: visit.simps split: if_splits)
  next
    case False
    then have nt: "node \<notin> temp_mark st" and nv: "node \<notin> visited st" by auto
    let ?st0 = "st\<lparr>temp_mark := insert node (temp_mark st)\<rparr>"
    from res nt nv obtain st1 where
      d: "visit_deps g (graph_get g node) ?st0 = Inr st1" and
      f: "st' = st1\<lparr>temp_mark := temp_mark st1 - {node},
                             visited := insert node (visited st1),
                             load_order := load_order st1 @ [node]\<rparr>"
      by (simp add: visit.simps split: sum.splits if_splits)
    have inv0: "st_inv g A ?st0" using inv nv by (auto simp: st_inv_def)
    have sub: "set (graph_get g node) \<subseteq> A" using cl by blast
    from IH[OF nt nv d inv0 sub cl]
    have i1: "st_inv g A st1" and dv: "set (graph_get g node) \<subseteq> visited st1"
      and mono: "visited st \<subseteq> visited st1" by auto
    from visit_temp(2)[OF d] have t1: "temp_mark st1 = insert node (temp_mark st)" by simp
    from i1 t1 have nv1: "node \<notin> visited st1" by (auto simp: st_inv_def)
    have "st_inv g A st'"
      using i1 nv1 nA dv unfolding f st_inv_def by auto
    moreover have "node \<in> visited st'" by (simp add: f)
    moreover have "visited st \<subseteq> visited st'" using mono by (auto simp: f)
    ultimately show ?thesis by blast
  qed
next
  case (2 g st)
  then show ?case by simp
next
  case (3 g dep deps st)
  note IH1 = 3(1) and IH2 = 3(2) and res = 3(3) and inv = 3(4) and sub = 3(5) and cl = 3(6)
  from res obtain st1 where a: "visit g dep st = Inr st1" and b: "visit_deps g deps st1 = Inr st'"
    by (simp split: sum.splits)
  from sub have dA: "dep \<in> A" and dsA: "set deps \<subseteq> A" by auto
  from IH1[OF a inv dA cl] have i1: "st_inv g A st1" and dv: "dep \<in> visited st1"
    and m1: "visited st \<subseteq> visited st1" by auto
  from IH2[OF a b i1 dsA cl] have "st_inv g A st'" and "set deps \<subseteq> visited st'"
    and "visited st1 \<subseteq> visited st'" by auto
  with dv m1 show ?case by auto
qed

lemma visit_err:
  "visit g node st = Inl e \<Longrightarrow> \<forall>t\<in>temp_mark st. (t, node) \<in> (edges g)\<^sup>+
   \<Longrightarrow> \<exists>n. e = CircularDependencyError (circular_msg n) \<and> (n, n) \<in> (edges g)\<^sup>+"
  "visit_deps g ds st = Inl e \<Longrightarrow> \<forall>t\<in>temp_mark st. \<forall>d\<in>set ds. (t, d) \<in> (edges g)\<^sup>+
   \<Longrightarrow> \<exists>n. e = CircularDependencyError (circular_msg n) \<and> (n, n) \<in> (edges g)\<^sup>+"
proof (induction g node st and g ds st arbitrary: e and e rule: visit_visit_deps.induct)
  case (1 g node st)
  note IH = 1(1) and res = 1(2) and path = 1(3)
  show ?case
  proof (cases "node \<in> temp_mark st")
    case True
    with res have "e = CircularDependencyError (circular_msg node)"
      by (simp add: visit.simps)
    moreover from True path have "(node, node) \<in> (edges g)\<^sup>+" by blast
    ultimately show ?thesis by blast
  next
    case nt: False
    show ?thesis
    proof (cases "node \<in> visited st")
      case True
      with res nt show ?thesis by (simp add: visit.simps)
    next
      case nv: False
      let ?st0 = "st\<lparr>temp_mark := insert node (temp_mark st)\<rparr>"
      have p0: "\<forall>t\<in>temp_mark ?st0. \<forall>d\<in>set (graph_get g node). (t, d) \<in> (edges g)\<^sup>+"
      proof (intro ballI)
        fix t d assume t: "t \<in> temp_mark ?st0" and d: "d \<in> set (graph_get g node)"
        from d have e: "(node, d) \<in> edges g" by (simp add: edges_def)
        show "(t, d) \<in> (edges g)\<^sup>+"
        proof (cases "t = node")
          case True with e show ?thesis by auto
        next
          case False
          with t have "t \<in> temp_mark st" by simp
          with path have "(t, node) \<in> (edges g)\<^sup>+" by blast
          with e show ?thesis by (auto intro: trancl_into_trancl)
        qed
      qed
      show ?thesis
      proof (cases "visit_deps g (graph_get g node) ?st0")
        case (Inl e')
        with res nt nv have "e' = e" by (simp add: visit.simps)
        with IH[OF nt nv _ p0] Inl show ?thesis by simp
      next
        case (Inr st1)
        from visit_temp(2)[OF Inr] have "node \<in> temp_mark st1" by simp
        with res nt nv Inr show ?thesis by (simp add: visit.simps)
      qed
    qed
  qed
next
  case (2 g st)
  then show ?case by simp
next
  case (3 g dep deps st)
  note IH1 = 3(1) and IH2 = 3(2) and res = 3(3) and path = 3(4)
  show ?case
  proof (cases "visit g dep st")
    case (Inl e')
    with res have "e' = e" by simp
    with IH1[of e] Inl path show ?thesis by simp
  next
    case (Inr st1)
    with res have r: "visit_deps g deps st1 = Inl e" by simp
    from visit_temp(1)[OF Inr] path
    have "\<forall>t\<in>temp_mark st1. \<forall>d\<in>set deps. (t, d) \<in> (edges g)\<^sup>+" by simp
    from IH2[OF Inr r this] show ?thesis .
  qed
qed


lemma check_deps_ok: "(check_deps avail p ds = Inr ()) = (set ds \<subseteq> set avail)"
  by (induction ds) auto

lemma check_deps_err:
  "check_deps avail p ds = Inl e \<Longrightarrow>
     \<exists>d. d \<in> set ds \<and> d \<notin> set avail \<and> e = MissingDependencyError (missing_msg p d)"
  by (induction ds) (auto split: if_splits)

lemma validate_loop_ok:
  "(validate_loop avail g = Inr ()) = (\<forall>(p, ds)\<in>set g. set ds \<subseteq> set avail)"
proof (induction g)
  case Nil
  show ?case by simp
next
  case (Cons a g)
  obtain p ds where a: "a = (p, ds)" by (cases a)
  show ?case
  proof (cases "check_deps avail p ds")
    case (Inl e)
    then have "\<not> set ds \<subseteq> set avail" using check_deps_ok[of avail p ds] by auto
    with Inl a show ?thesis by simp
  next
    case (Inr u)
    then have "set ds \<subseteq> set avail" using check_deps_ok[of avail p ds] by simp
    with Inr a Cons show ?thesis by simp
  qed
qed

lemma validate_loop_err:
  "validate_loop avail g = Inl e \<Longrightarrow>
     \<exists>p ds d. (p, ds) \<in> set g \<and> d \<in> set ds \<and> d \<notin> set avail
        \<and> e = MissingDependencyError (missing_msg p d)"
proof (induction g)
  case Nil
  then show ?case by simp
next
  case (Cons a g)
  obtain p ds where a: "a = (p, ds)" by (cases a)
  show ?case
  proof (cases "check_deps avail p ds")
    case (Inl e')
    with Cons.prems a have "e' = e" by simp
    with check_deps_err[OF Inl] a show ?thesis by auto
  next
    case (Inr u)
    with Cons.prems a have "validate_loop avail g = Inl e" by simp
    from Cons.IH[OF this] show ?thesis by auto
  qed
qed

lemma graph_get_closed:
  assumes "\<forall>(p, ds)\<in>set g. set ds \<subseteq> A"
  shows "set (graph_get g n) \<subseteq> A"
proof (cases "map_of g n")
  case None
  then show ?thesis by (simp add: graph_get_def dict_get_def)
next
  case (Some ds)
  then have "(n, ds) \<in> set g" by (rule map_of_SomeD)
  with assms have "set ds \<subseteq> A" by auto
  with Some show ?thesis by (simp add: graph_get_def dict_get_def)
qed

lemma resolve_loop_inv:
  "resolve_loop g ps st = Inr st' \<Longrightarrow> st_inv g A st \<Longrightarrow> set ps \<subseteq> A
   \<Longrightarrow> \<forall>n. set (graph_get g n) \<subseteq> A
   \<Longrightarrow> st_inv g A st' \<and> set ps \<subseteq> visited st' \<and> visited st \<subseteq> visited st'
       \<and> temp_mark st' = temp_mark st"
proof (induction ps arbitrary: st)
  case Nil
  then show ?case by simp
next
  case (Cons p ps)
  show ?case
  proof (cases "p \<in> visited st")
    case True
    with Cons.prems have r: "resolve_loop g ps st = Inr st'" by simp
    from Cons.IH[OF r Cons.prems(2) _ Cons.prems(4)] Cons.prems(3) True
    show ?thesis by auto
  next
    case False
    with Cons.prems(1) obtain st1 where a: "visit g p st = Inr st1"
      and r: "resolve_loop g ps st1 = Inr st'"
      by (simp split: sum.splits)
    from visit_inv(1)[OF a Cons.prems(2) _ Cons.prems(4)] Cons.prems(3)
    have i1: "st_inv g A st1" and pv: "p \<in> visited st1" and m: "visited st \<subseteq> visited st1"
      by auto
    from Cons.IH[OF r i1 _ Cons.prems(4)] Cons.prems(3)
    have "st_inv g A st'" "set ps \<subseteq> visited st'" "visited st1 \<subseteq> visited st'"
      "temp_mark st' = temp_mark st1" by auto
    with pv m visit_temp(1)[OF a] show ?thesis by auto
  qed
qed

lemma resolve_loop_err:
  "resolve_loop g ps st = Inl e \<Longrightarrow> temp_mark st = {}
   \<Longrightarrow> \<exists>n. e = CircularDependencyError (circular_msg n) \<and> (n, n) \<in> (edges g)\<^sup>+"
proof (induction ps arbitrary: st)
  case Nil
  then show ?case by simp
next
  case (Cons p ps)
  show ?case
  proof (cases "p \<in> visited st")
    case True
    with Cons.prems have "resolve_loop g ps st = Inl e" by simp
    from Cons.IH[OF this Cons.prems(2)] show ?thesis .
  next
    case False
    show ?thesis
    proof (cases "visit g p st")
      case (Inl e')
      with Cons.prems(1) False have "e' = e" by simp
      with visit_err(1)[OF Inl] Cons.prems(2) show ?thesis by simp
    next
      case (Inr st1)
      with Cons.prems(1) False have r: "resolve_loop g ps st1 = Inl e" by simp
      from visit_temp(1)[OF Inr] Cons.prems(2) have "temp_mark st1 = {}" by simp
      from Cons.IH[OF r this] show ?thesis .
    qed
  qed
qed

lemma topo_rev_reach:
  "(n, m) \<in> (edges g)\<^sup>+ \<Longrightarrow> topo_rev g l \<Longrightarrow> n \<in> set l \<Longrightarrow> m \<in> set l"
proof (induction rule: trancl_induct)
  case (base y)
  then show ?case
    by (induction l) (auto simp: edges_def)
next
  case (step y z)
  then have y: "y \<in> set l" by simp
  from step.hyps(2) have "z \<in> set (graph_get g y)" by (simp add: edges_def)
  with y step.prems(1) show ?case
    by (induction l) auto
qed

lemma topo_rev_acyclic:
  "topo_rev g l \<Longrightarrow> distinct l \<Longrightarrow> n \<in> set l \<Longrightarrow> (n, n) \<notin> (edges g)\<^sup>+"
proof (induction l)
  case Nil
  then show ?case by simp
next
  case (Cons x l)
  from Cons.prems have t: "topo_rev g l" and d: "distinct l" and xl: "x \<notin> set l"
    and dx: "set (graph_get g x) \<subseteq> set l" by auto
  show ?case
  proof (cases "n = x")
    case False
    with Cons.prems(3) have "n \<in> set l" by simp
    from Cons.IH[OF t d this] show ?thesis .
  next
    case True
    show ?thesis
    proof
      assume "(n, n) \<in> (edges g)\<^sup>+"
      with True have "(x, x) \<in> (edges g)\<^sup>+" by simp
      then obtain y where xy: "(x, y) \<in> edges g" and yx: "(y, x) \<in> (edges g)\<^sup>*"
        by (auto dest: tranclD)
      from xy dx have yl: "y \<in> set l" by (auto simp: edges_def)
      from yx have "y = x \<or> (y, x) \<in> (edges g)\<^sup>+" by (auto simp: rtrancl_eq_or_trancl)
      then show False
      proof
        assume "y = x" with yl xl show False by simp
      next
        assume "(y, x) \<in> (edges g)\<^sup>+"
        from topo_rev_reach[OF this t yl] xl show False by simp
      qed
    qed
  qed
qed

lemma topo_rev_before:
  "topo_rev g (rev order) \<Longrightarrow> p \<in> set order \<Longrightarrow> d \<in> set (graph_get g p)
   \<Longrightarrow> \<exists>xs ys zs. order = xs @ d # ys @ p # zs"
proof (induction order rule: rev_induct)
  case Nil
  then show ?case by simp
next
  case (snoc x order)
  from snoc.prems(1) have t: "topo_rev g (rev order)" and dx: "set (graph_get g x) \<subseteq> set order"
    by auto
  show ?case
  proof (cases "p = x")
    case True
    with dx snoc.prems(3) have "d \<in> set order" by auto
    then obtain xs ys where "order = xs @ d # ys" by (auto simp: in_set_conv_decomp)
    with True have "order @ [x] = xs @ d # ys @ p # []" by simp
    then show ?thesis by blast
  next
    case False
    with snoc.prems(2) have "p \<in> set order" by simp
    from snoc.IH[OF t this snoc.prems(3)] obtain xs ys zs where "order = xs @ d # ys @ p # zs"
      by blast
    then have "order @ [x] = xs @ d # ys @ p # (zs @ [x])" by simp
    then show ?thesis by blast
  qed
qed

lemma edge_source_is_key:
  assumes "(n, m) \<in> (edges g)\<^sup>+"
  shows "n \<in> fst ` set g"
proof -
  from assms obtain y where "(n, y) \<in> edges g" by (auto dest: tranclD)
  then have "graph_get g n \<noteq> []" by (auto simp: edges_def)
  then obtain ds where "map_of g n = Some ds"
    by (auto simp: graph_get_def dict_get_def split: option.splits)
  then have "(n, ds) \<in> set g" by (rule map_of_SomeD)
  then show ?thesis by force
qed

lemma resolve_total:
  assumes reg: "fst ` set (dependency_graph r) = set (available_plugins r)"
    and cl: "\<forall>(p, ds)\<in>set (dependency_graph r). set ds \<subseteq> set (available_plugins r)"
  shows "(\<exists>order. resolve r = Inr order \<and> distinct order \<and> set order = set (available_plugins r)
            \<and> topo_rev (dependency_graph r) (rev order)
            \<and> acyclic (edges (dependency_graph r)))
       \<or> (\<exists>n. resolve r = Inl (CircularDependencyError (circular_msg n))
            \<and> (n, n) \<in> (edges (dependency_graph r))\<^sup>+)"
proof -
  let ?g = "dependency_graph r" and ?A = "set (available_plugins r)"
  let ?st0 = "\<lparr>visited = {}, temp_mark = {}, load_order = []\<rparr>"
  from cl have v: "validate_dependencies r = Inr ()"
    by (simp add: validate_dependencies_def validate_loop_ok)
  have clg: "\<forall>n. set (graph_get ?g n) \<subseteq> ?A"
    using graph_get_closed[OF cl] by blast
  show ?thesis
  proof (cases "resolve_loop ?g (available_plugins r) ?st0")
    case (Inl e)
    from resolve_loop_err[OF Inl] obtain n where
      "e = CircularDependencyError (circular_msg n)" "(n, n) \<in> (edges ?g)\<^sup>+" by auto
    with Inl v show ?thesis by (auto simp: resolve_def)
  next
    case (Inr st)
    have i0: "st_inv ?g ?A ?st0" by (simp add: st_inv_def)
    from resolve_loop_inv[OF Inr i0 _ clg]
    have i: "st_inv ?g ?A st" and all: "?A \<subseteq> visited st" by auto
    from i all have so: "set (load_order st) = ?A" and di: "distinct (load_order st)"
      and to: "topo_rev ?g (rev (load_order st))" by (auto simp: st_inv_def)
    have "acyclic (edges ?g)"
      unfolding acyclic_def
    proof (intro allI notI)
      fix n assume c: "(n, n) \<in> (edges ?g)\<^sup>+"
      from edge_source_is_key[OF c] reg so have "n \<in> set (rev (load_order st))" by simp
      from topo_rev_acyclic[OF to _ this] di c show False by simp
    qed
    with Inr v so di to show ?thesis by (simp add: resolve_def)
  qed
qed


lemma dict_set_map_fst:
  "map fst (dict_set d k v) = (if k \<in> fst ` set d then map fst d else map fst d @ [k])"
  by (induction d) (auto simp: rev_image_eqI)

lemma dict_set_keys: "fst ` set (dict_set d k v) = insert k (fst ` set d)"
proof -
  have "fst ` set (dict_set d k v) = set (map fst (dict_set d k v))" by simp
  also have "\<dots> = insert k (fst ` set d)"
    unfolding dict_set_map_fst by auto
  finally show ?thesis .
qed

lemma add_plugin_registered:
  "fst ` set (dependency_graph r) = set (available_plugins r) \<Longrightarrow>
   fst ` set (dependency_graph (add_plugin r n ds)) = set (available_plugins (add_plugin r n ds))"
  by (auto simp: add_plugin_def set_add_def dict_set_keys)

lemmas resolver_eval =
  DependencyResolver_def add_plugin_def set_add_def resolve_def validate_dependencies_def
  graph_get_def dict_get_def visit.simps missing_msg_def circular_msg_def

text \<open>
  C4. Let every key of the dependency graph be registered and every declared dependency be
  registered. If the "depends on" relation has no cycle, \<open>resolve\<close> returns a list that
  holds each registered plugin exactly once and in which every dependency of a plugin stands
  before the plugin. If it has a cycle, \<open>resolve\<close> raises \<open>CircularDependencyError\<close>,
  and the plugin its message names lies on a cycle.
\<close>

theorem resolve_topological_order:
  assumes "fst ` set (dependency_graph r) = set (available_plugins r)"
    and "\<forall>(p, ds)\<in>set (dependency_graph r). set ds \<subseteq> set (available_plugins r)"
  shows "(acyclic (edges (dependency_graph r)) \<longrightarrow>
           (\<exists>order. resolve r = Inr order \<and> distinct order
              \<and> set order = set (available_plugins r)
              \<and> (\<forall>p d. p \<in> set (available_plugins r)
                      \<and> d \<in> set (graph_get (dependency_graph r) p)
                     \<longrightarrow> (\<exists>xs ys zs. order = xs @ d # ys @ p # zs))))
       \<and> (\<not> acyclic (edges (dependency_graph r)) \<longrightarrow>
           (\<exists>n. resolve r = Inl (CircularDependencyError (circular_msg n))
              \<and> (n, n) \<in> (edges (dependency_graph r))\<^sup>+))"
proof -
  let ?g = "dependency_graph r"
  from resolve_total[OF assms] consider
    (ok) order where "resolve r = Inr order" "distinct order"
      "set order = set (available_plugins r)" "topo_rev ?g (rev order)" "acyclic (edges ?g)"
  | (cyc) n where "resolve r = Inl (CircularDependencyError (circular_msg n))"
      "(n, n) \<in> (edges ?g)\<^sup>+"
    by blast
  then show ?thesis
  proof cases
    case ok
    have "\<forall>p d. p \<in> set (available_plugins r) \<and> d \<in> set (graph_get ?g p)
            \<longrightarrow> (\<exists>xs ys zs. order = xs @ d # ys @ p # zs)"
      using topo_rev_before[OF ok(4)] ok(3) by blast
    with ok show ?thesis by blast
  next
    case cyc
    then have "\<not> acyclic (edges ?g)" by (auto simp: acyclic_def)
    with cyc show ?thesis by blast
  qed
qed

theorem resolve_topological_order_witness:
  "acyclic (edges (dependency_graph
      (add_plugin (add_plugin (add_plugin DependencyResolver ''A'' []) ''B'' [''A''])
         ''C'' [''A'', ''B''])))
   \<and> resolve (add_plugin (add_plugin (add_plugin DependencyResolver ''A'' []) ''B'' [''A''])
         ''C'' [''A'', ''B'']) = Inr [''A'', ''B'', ''C'']
   \<and> \<not> acyclic (edges (dependency_graph
      (add_plugin (add_plugin DependencyResolver ''A'' [''B'']) ''B'' [''A''])))
   \<and> resolve (add_plugin (add_plugin DependencyResolver ''A'' [''B'']) ''B'' [''A''])
       = Inl (CircularDependencyError ''Circular dependency detected involving plugin: A'')"
proof -
  let ?r3 = "add_plugin (add_plugin (add_plugin DependencyResolver ''A'' []) ''B'' [''A''])
         ''C'' [''A'', ''B'']"
  let ?r2 = "add_plugin (add_plugin DependencyResolver ''A'' [''B'']) ''B'' [''A'']"
  have reg3: "fst ` set (dependency_graph ?r3) = set (available_plugins ?r3)"
    by (simp add: resolver_eval) 
  have cl3: "\<forall>(p, ds)\<in>set (dependency_graph ?r3). set ds \<subseteq> set (available_plugins ?r3)"
    by (simp add: resolver_eval)
  have e3: "resolve ?r3 = Inr [''A'', ''B'', ''C'']"
    by (simp add: resolver_eval)
  have reg2: "fst ` set (dependency_graph ?r2) = set (available_plugins ?r2)"
    by (simp add: resolver_eval) 
  have cl2: "\<forall>(p, ds)\<in>set (dependency_graph ?r2). set ds \<subseteq> set (available_plugins ?r2)"
    by (simp add: resolver_eval)
  have e2: "resolve ?r2 = Inl (CircularDependencyError ''Circular dependency detected involving plugin: A'')"
    by (simp add: resolver_eval)
  from resolve_topological_order[OF reg3 cl3] e3
  have a3: "acyclic (edges (dependency_graph ?r3))" by auto
  from resolve_topological_order[OF reg2 cl2] e2
  have a2: "\<not> acyclic (edges (dependency_graph ?r2))" by auto
  from a3 e3 a2 e2 show ?thesis by blast
qed

lemma str_contains_prefix: "str_contains x (x @ b)"
proof (cases "x @ b")
  case Nil
  then show ?thesis by simp
next
  case (Cons c cs)
  have "take (length x) (x @ b) = x" by simp
  then have "take (length x) (c # cs) = x" unfolding Cons .
  then show ?thesis unfolding Cons by simp
qed

lemma str_contains_mid: "str_contains x (a @ x @ b)"
  by (induction a) (auto simp: str_contains_prefix)

lemma missing_msg_names:
  "str_contains X (missing_msg X Y) \<and> str_contains Y (missing_msg X Y)"
proof -
  have "missing_msg X Y = (''Plugin '' @ [CHR 0x27]) @ X
          @ ([CHR 0x27] @ '' requires '' @ [CHR 0x27] @ Y @ [CHR 0x27] @ '' which is not available'')"
    by (simp add: missing_msg_def)
  then have 1: "str_contains X (missing_msg X Y)" by (simp only: str_contains_mid)
  have "missing_msg X Y = (''Plugin '' @ [CHR 0x27] @ X @ [CHR 0x27] @ '' requires '' @ [CHR 0x27]) @ Y
          @ ([CHR 0x27] @ '' which is not available'')"
    by (simp add: missing_msg_def)
  then have 2: "str_contains Y (missing_msg X Y)" by (simp only: str_contains_mid)
  from 1 2 show ?thesis ..
qed

lemma check_deps_err_first:
  "check_deps avail p ds = Inl e \<Longrightarrow>
     \<exists>dsb d dsa. ds = dsb @ d # dsa \<and> set dsb \<subseteq> set avail \<and> d \<notin> set avail
        \<and> e = MissingDependencyError (missing_msg p d)"
proof (induction ds)
  case Nil
  then show ?case by simp
next
  case (Cons x ds)
  show ?case
  proof (cases "x \<in> set avail")
    case False
    with Cons.prems have "e = MissingDependencyError (missing_msg p x)" by simp
    with False show ?thesis by (intro exI[of _ "[]"] exI[of _ x] exI[of _ ds]) simp
  next
    case True
    with Cons.prems have "check_deps avail p ds = Inl e" by simp
    from Cons.IH[OF this] obtain dsb d dsa where
      "ds = dsb @ d # dsa" "set dsb \<subseteq> set avail" "d \<notin> set avail"
      "e = MissingDependencyError (missing_msg p d)" by blast
    with True show ?thesis by (intro exI[of _ "x # dsb"] exI[of _ d] exI[of _ dsa]) simp
  qed
qed

lemma validate_loop_err_first:
  "validate_loop avail g = Inl e \<Longrightarrow>
     \<exists>before p dsb d dsa after.
        g = before @ (p, dsb @ d # dsa) # after
      \<and> (\<forall>(q, qs)\<in>set before. set qs \<subseteq> set avail)
      \<and> set dsb \<subseteq> set avail \<and> d \<notin> set avail
      \<and> e = MissingDependencyError (missing_msg p d)"
proof (induction g)
  case Nil
  then show ?case by simp
next
  case (Cons a g)
  obtain p ds where a: "a = (p, ds)" by (cases a)
  show ?case
  proof (cases "check_deps avail p ds")
    case (Inl e')
    with Cons.prems a have "e' = e" by simp
    with check_deps_err_first[OF Inl] obtain dsb d dsa where
      "ds = dsb @ d # dsa" "set dsb \<subseteq> set avail" "d \<notin> set avail"
      "e = MissingDependencyError (missing_msg p d)" by blast
    with a show ?thesis
      by (intro exI[of _ "[]"] exI[of _ p] exI[of _ dsb] exI[of _ d] exI[of _ dsa] exI[of _ g])
         simp
  next
    case (Inr u)
    then have ok: "set ds \<subseteq> set avail" using check_deps_ok[of avail p ds] by simp
    from Inr Cons.prems a have "validate_loop avail g = Inl e" by simp
    from Cons.IH[OF this] obtain before q dsb d dsa after where
      "g = before @ (q, dsb @ d # dsa) # after"
      "\<forall>(q, qs)\<in>set before. set qs \<subseteq> set avail"
      "set dsb \<subseteq> set avail" "d \<notin> set avail"
      "e = MissingDependencyError (missing_msg q d)" by blast
    with a ok show ?thesis
      by (intro exI[of _ "a # before"] exI[of _ q] exI[of _ dsb] exI[of _ d] exI[of _ dsa]
            exI[of _ after]) simp
  qed
qed

text \<open>
  C6, as the code has it. If some registered plugin declares a dependency that is not
  registered, then \<open>resolve\<close> raises \<open>MissingDependencyError\<close>; the error is the one the
  pre-check \<open>validate_dependencies\<close> raises, so no traversal has begun (a cycle elsewhere
  in the graph does not matter). Its message names the first unregistered dependency the
  pre-check meets, with the plugin that declares it: every plugin before that one in the
  graph has all its dependencies registered, and so has every dependency declared before
  that one by the same plugin. When the pair \<open>X\<close>, \<open>Y\<close> is the only one, the message names
  \<open>X\<close> and \<open>Y\<close>.
\<close>

theorem resolve_missing_dependency:
  assumes "(X, ds) \<in> set (dependency_graph r)" and "Y \<in> set ds"
    and "Y \<notin> set (available_plugins r)"
  shows "\<exists>before X' dsb Y' dsa after.
             dependency_graph r = before @ (X', dsb @ Y' # dsa) # after
           \<and> (\<forall>(q, qs)\<in>set before. set qs \<subseteq> set (available_plugins r))
           \<and> set dsb \<subseteq> set (available_plugins r)
           \<and> Y' \<notin> set (available_plugins r)
           \<and> validate_dependencies r = Inl (MissingDependencyError (missing_msg X' Y'))
           \<and> resolve r = Inl (MissingDependencyError (missing_msg X' Y'))
           \<and> str_contains X' (missing_msg X' Y') \<and> str_contains Y' (missing_msg X' Y')
           \<and> ((\<forall>X'' ds'' Y''. (X'', ds'') \<in> set (dependency_graph r) \<and> Y'' \<in> set ds''
                    \<and> Y'' \<notin> set (available_plugins r) \<longrightarrow> X'' = X \<and> Y'' = Y)
                \<longrightarrow> resolve r = Inl (MissingDependencyError (missing_msg X Y)))"
proof -
  have "validate_dependencies r \<noteq> Inr ()"
    using assms by (auto simp: validate_dependencies_def validate_loop_ok)
  then obtain e where e: "validate_dependencies r = Inl e"
    by (cases "validate_dependencies r") auto
  then have "validate_loop (available_plugins r) (dependency_graph r) = Inl e"
    by (simp add: validate_dependencies_def)
  from validate_loop_err_first[OF this] obtain before p dsb d dsa after where
    g: "dependency_graph r = before @ (p, dsb @ d # dsa) # after"
    and b: "\<forall>(q, qs)\<in>set before. set qs \<subseteq> set (available_plugins r)"
    and db: "set dsb \<subseteq> set (available_plugins r)" and d: "d \<notin> set (available_plugins r)"
    and ee: "e = MissingDependencyError (missing_msg p d)" by blast
  from e have res: "resolve r = Inl e" by (simp add: resolve_def)
  have mem: "(p, dsb @ d # dsa) \<in> set (dependency_graph r)" "d \<in> set (dsb @ d # dsa)"
    using g by auto
  have uniq: "(\<forall>X'' ds'' Y''. (X'', ds'') \<in> set (dependency_graph r) \<and> Y'' \<in> set ds''
                    \<and> Y'' \<notin> set (available_plugins r) \<longrightarrow> X'' = X \<and> Y'' = Y)
                \<longrightarrow> resolve r = Inl (MissingDependencyError (missing_msg X Y))"
    using mem d res ee by blast
  show ?thesis
    apply (rule exI[of _ before], rule exI[of _ p], rule exI[of _ dsb], rule exI[of _ d],
           rule exI[of _ dsa], rule exI[of _ after])
    using g b db d e res ee uniq missing_msg_names[of p d] by simp
qed

theorem resolve_missing_dependency_witness:
  "resolve (add_plugin DependencyResolver ''X'' [''X'', ''Y''])
     = Inl (MissingDependencyError
             (''Plugin '' @ [CHR 0x27] @ ''X'' @ [CHR 0x27] @ '' requires '' @ [CHR 0x27] @ ''Y''
                @ [CHR 0x27] @ '' which is not available''))"
proof -
  let ?r = "add_plugin DependencyResolver ''X'' [''X'', ''Y'']"
  have 1: "(''X'', [''X'', ''Y'']) \<in> set (dependency_graph ?r)" by (simp add: resolver_eval)
  have 2: "''Y'' \<in> set [''X'', ''Y'']" by simp
  have 3: "''Y'' \<notin> set (available_plugins ?r)" by (simp add: resolver_eval)
  have only: "\<forall>X'' ds'' Y''. (X'', ds'') \<in> set (dependency_graph ?r) \<and> Y'' \<in> set ds''
      \<and> Y'' \<notin> set (available_plugins ?r) \<longrightarrow> X'' = ''X'' \<and> Y'' = ''Y''"
    by (auto simp: resolver_eval)
  from resolve_missing_dependency[OF 1 2 3] only
  have "resolve ?r = Inl (MissingDependencyError (missing_msg ''X'' ''Y''))" by blast
  then show ?thesis by (simp add: missing_msg_def)
qed

text \<open>
  C6 as stated fails when two plugins have a missing dependency: \<open>X2\<close> is registered and
  declares the unregistered \<open>Y2\<close>, and the message names \<open>X1\<close> and \<open>Y1\<close>, neither
  \<open>X2\<close> nor \<open>Y2\<close>.
\<close>

theorem resolve_missing_dependency_counterexample:
  "(''X2'', [''Y2'']) \<in> set (dependency_graph
       (add_plugin (add_plugin DependencyResolver ''X1'' [''Y1'']) ''X2'' [''Y2'']))
   \<and> ''Y2'' \<in> set [''Y2'']
   \<and> ''Y2'' \<notin> set (available_plugins
       (add_plugin (add_plugin DependencyResolver ''X1'' [''Y1'']) ''X2'' [''Y2'']))
   \<and> resolve (add_plugin (add_plugin DependencyResolver ''X1'' [''Y1'']) ''X2'' [''Y2''])
       = Inl (MissingDependencyError
               (''Plugin '' @ [CHR 0x27] @ ''X1'' @ [CHR 0x27] @ '' requires '' @ [CHR 0x27]
                  @ ''Y1'' @ [CHR 0x27] @ '' which is not available''))
   \<and> \<not> str_contains ''X2''
         (''Plugin '' @ [CHR 0x27] @ ''X1'' @ [CHR 0x27] @ '' requires '' @ [CHR 0x27]
            @ ''Y1'' @ [CHR 0x27] @ '' which is not available'')
   \<and> \<not> str_contains ''Y2''
         (''Plugin '' @ [CHR 0x27] @ ''X1'' @ [CHR 0x27] @ '' requires '' @ [CHR 0x27]
            @ ''Y1'' @ [CHR 0x27] @ '' which is not available'')"
  by (simp add: resolver_eval)


section \<open>Properties of plugin configuration\<close>

lemma dict_get_dict_set:
  "dict_get (dict_set d k v) k' = (if k' = k then Some v else dict_get d k')"
  by (induction d) (auto simp: dict_get_def)

lemma dict_set_same: "dict_get d k = Some v \<Longrightarrow> dict_set d k v = d"
  by (induction d) (auto simp: dict_get_def split: if_splits)

lemma deep_update_other:
  "k \<notin> fst ` set source \<Longrightarrow> dict_get (deep_update target source) k = dict_get target k"
proof (induction target source rule: deep_update.induct)
  case (1 target)
  then show ?case by simp
next
  case (2 target key vd source)
  then show ?case
    by (auto simp: dict_get_dict_set split: option.splits pyval.splits)
qed (auto simp: dict_get_dict_set)

lemma deep_update_step:
  "deep_update target ((key, v) # source)
     = deep_update (dict_set target key (merged_value (dict_get target key) v)) source"
  by (cases v) (auto simp: merged_value_def split: option.splits pyval.splits)

lemma deep_update_lookup:
  "distinct (map fst source) \<Longrightarrow>
   dict_get (deep_update target source) k =
     (case dict_get source k of
        None \<Rightarrow> dict_get target k
      | Some v \<Rightarrow> Some (merged_value (dict_get target k) v))"
proof (induction source arbitrary: target)
  case Nil
  then show ?case by (simp add: dict_get_def)
next
  case (Cons a source)
  obtain key v where a: "a = (key, v)" by (cases a)
  from Cons.prems a have nk: "key \<notin> fst ` set source" and d: "distinct (map fst source)"
    by auto
  let ?t = "dict_set target key (merged_value (dict_get target key) v)"
  have step: "deep_update target (a # source) = deep_update ?t source"
    unfolding a by (rule deep_update_step)
  show ?case
  proof (cases "k = key")
    case True
    have "dict_get (deep_update ?t source) k = dict_get ?t k"
      using nk True by (simp add: deep_update_other)
    moreover have "dict_get ?t k = Some (merged_value (dict_get target key) v)"
      using True by (simp add: dict_get_dict_set)
    moreover have "dict_get (a # source) k = Some v"
      using True a by (simp add: dict_get_def)
    ultimately show ?thesis
      unfolding step using True by simp
  next
    case False
    have "dict_get ?t k = dict_get target k" using False by (simp add: dict_get_dict_set)
    moreover have "dict_get (a # source) k = dict_get source k"
      using False a by (simp add: dict_get_def)
    ultimately show ?thesis
      unfolding step using Cons.IH[OF d, of ?t] by (simp split: option.splits)
  qed
qed

lemma split_on_nonempty: "split_on sep cur s \<noteq> []"
  by (induction s arbitrary: cur) auto

lemma set_walk_blocked:
  "get_walk (PDict c) pre = Some v \<Longrightarrow> \<forall>d. v \<noteq> PDict d \<Longrightarrow> pre \<noteq> [] \<Longrightarrow> rest \<noteq> []
   \<Longrightarrow> set_walk c (butlast (pre @ rest)) (last (pre @ rest)) x = (c, Some TypeError)
       \<and> get_walk (PDict c) (pre @ rest) = None"
proof (induction pre arbitrary: c)
  case Nil
  then show ?case by simp
next
  case (Cons k pre)
  from Cons.prems(1) obtain v' where g: "dict_get c k = Some v'" and w: "get_walk v' pre = Some v"
    by (auto split: option.splits)
  from g have has: "dict_has c k" by (simp add: dict_has_def)
  from Cons.prems(4) have bl: "butlast ((k # pre) @ rest) = k # butlast (pre @ rest)"
    and la: "last ((k # pre) @ rest) = last (pre @ rest)" by auto
  show ?case
  proof (cases pre)
    case Nil
    with w have "v' = v" by simp
    with Cons.prems(2) have nd: "\<forall>d. v' \<noteq> PDict d" by simp
    then have "set_walk c (k # butlast (pre @ rest)) (last (pre @ rest)) x = (c, Some TypeError)"
      using g has by (cases v') auto
    moreover have "get_walk (PDict c) ((k # pre) @ rest) = None"
      using g nd Nil Cons.prems(4) by (cases v'; cases rest) auto
    ultimately show ?thesis using bl la by simp
  next
    case (Cons k' pre')
    with w obtain child where ch: "v' = PDict child" by (cases v') auto
    from Cons have ne: "pre \<noteq> []" by simp
    from Cons.IH[OF w[unfolded ch] Cons.prems(2) ne Cons.prems(4)]
    have s: "set_walk child (butlast (pre @ rest)) (last (pre @ rest)) x = (child, Some TypeError)"
      and gn: "get_walk (PDict child) (pre @ rest) = None" by auto
    have "dict_set c k (PDict child) = c" using g ch by (simp add: dict_set_same)
    then have "set_walk c (k # butlast (pre @ rest)) (last (pre @ rest)) x = (c, Some TypeError)"
      using g has ch s by simp
    moreover have "get_walk (PDict c) ((k # pre) @ rest) = None"
      using g ch gn by simp
    ultimately show ?thesis using bl la by simp
  qed
qed


lemmas config_eval =
  PluginConfig_def PluginConfig_set_def PluginConfig_get_def PluginConfig_update_def
  split_dot_def dict_get_def dict_has_def

text \<open>
  C7. \<open>update\<close> is a recursive deep merge. For an update with distinct keys (a dict) and
  every key \<open>k\<close>: a key the update does not mention keeps its value; where the update's
  value and the existing value are both mappings the result is their merge by the same
  function; any other update value (a non-mapping, or a mapping over a non-mapping or
  absent value) replaces the entry. The specification's example is the witness.
\<close>

theorem update_deep_merge:
  assumes "distinct (map fst updates)"
  shows "dict_get (config_data (PluginConfig_update self updates)) k =
     (case dict_get updates k of
        None \<Rightarrow> dict_get (config_data self) k
      | Some (PDict vd) \<Rightarrow>
          (case dict_get (config_data self) k of
             Some (PDict td) \<Rightarrow> Some (PDict (deep_update td vd))
           | _ \<Rightarrow> Some (PDict vd))
      | Some v \<Rightarrow> Some v)"
  using deep_update_lookup[OF assms, of "config_data self" k]
  by (simp add: PluginConfig_update_def merged_value_def split: option.splits pyval.splits)

theorem update_deep_merge_witness:
  "config_data
     (PluginConfig_update
        (PluginConfig ''p'' (Some [(''a'', PDict [(''x'', PInt 1), (''y'', PInt 2)]),
                                   (''b'', PList [PInt 1, PInt 2])]))
        [(''a'', PDict [(''x'', PInt 9)])])
     = [(''a'', PDict [(''x'', PInt 9), (''y'', PInt 2)]), (''b'', PList [PInt 1, PInt 2])]
   \<and> dict_get (config_data
     (PluginConfig_update
        (PluginConfig ''p'' (Some [(''a'', PDict [(''x'', PInt 1), (''y'', PInt 2)]),
                                   (''b'', PList [PInt 1, PInt 2])]))
        [(''a'', PDict [(''x'', PInt 9)])])) ''a''
     = Some (PDict [(''x'', PInt 9), (''y'', PInt 2)])"
proof -
  have d: "distinct (map fst [(''a'', PDict [(''x'', PInt 9)])])" by simp
  from update_deep_merge[OF d,
      of "PluginConfig ''p'' (Some [(''a'', PDict [(''x'', PInt 1), (''y'', PInt 2)]),
                                   (''b'', PList [PInt 1, PInt 2])])" "''a''"]
  show ?thesis by (simp add: config_eval)
qed

text \<open>
  C10. If a non-empty strict prefix of the dot-separated key leads, through dicts, to a value
  that is not a dict, then \<open>set\<close> raises \<open>TypeError\<close> and leaves the configuration as it
  was, while \<open>get\<close> returns the default. The witness is \<open>set("a", 1)\<close> followed by
  \<open>set("a.b", 2)\<close>.
\<close>

theorem set_blocked_by_non_mapping:
  assumes "split_dot key = pre @ rest" and "pre \<noteq> []" and "rest \<noteq> []"
    and "get_walk (PDict (config_data self)) pre = Some v" and "\<forall>d. v \<noteq> PDict d"
  shows "PluginConfig_set self key x = (self, Some TypeError)
       \<and> PluginConfig_get self key default_value = default_value"
  using set_walk_blocked[OF assms(4) assms(5) assms(2) assms(3), of x]
  by (simp add: PluginConfig_set_def PluginConfig_get_def assms(1))

theorem set_blocked_by_non_mapping_witness:
  "PluginConfig_set (PluginConfig ''p'' None) ''a'' (PInt 1)
     = (PluginConfig ''p'' (Some [(''a'', PInt 1)]), None)
   \<and> PluginConfig_set (PluginConfig ''p'' (Some [(''a'', PInt 1)])) ''a.b'' (PInt 2)
     = (PluginConfig ''p'' (Some [(''a'', PInt 1)]), Some TypeError)
   \<and> PluginConfig_get (PluginConfig ''p'' (Some [(''a'', PInt 1)])) ''a.b'' (PInt 42) = PInt 42"
proof -
  let ?c = "PluginConfig ''p'' (Some [(''a'', PInt 1)])"
  have 1: "split_dot ''a.b'' = [''a''] @ [''b'']" by (simp add: split_dot_def)
  have 2: "get_walk (PDict (config_data ?c)) [''a''] = Some (PInt 1)"
    by (simp add: config_eval)
  have 3: "\<forall>d. PInt 1 \<noteq> PDict d" by simp
  have 4: "PluginConfig_set (PluginConfig ''p'' None) ''a'' (PInt 1) = (?c, None)"
    by (simp add: config_eval)
  from set_blocked_by_non_mapping[OF 1 _ _ 2 3, of "PInt 2" "PInt 42"] 4
  show ?thesis by simp
qed


section \<open>Properties of manifest validation\<close>

lemmas manifest_eval =
  validate_def validate_required_fields_def REQUIRED_FIELDS_def VALID_TYPES_def
  validate_name_def validate_version_def validate_type_def validate_entry_point_def
  manifest_validate_dependencies_def validate_requires_version_def get_or_def dict_get_def
  dict_has_def append_error_def match_class_plus_def match_plain_version_def
  is_name_char_def is_entry_char_def py_format_def get_errors_def ManifestValidator_def
  match_semver_def digits1_def expect_dot_def opt_group_def at_end_def
  is_digit_def is_ident_char_def is_lower_def is_upper_def


lemma required_loop_errors:
  "errors (validate_required_fields_loop self m fs)
     = errors self @ map (\<lambda>f. ''Missing required field: '' @ f)
                        (filter (\<lambda>f. \<not> dict_has m f) fs)"
  by (induction fs arbitrary: self) (auto simp: append_error_def)

lemma required_fields_errors:
  "errors (validate_required_fields self m)
     = errors self @ errors (validate_required_fields ManifestValidator m)"
  by (simp add: validate_required_fields_def required_loop_errors ManifestValidator_def)

lemma required_fields_more:
  "manifest_validator.more (validate_required_fields_loop self m fs) = manifest_validator.more self"
  by (induction fs arbitrary: self) (auto simp: append_error_def)

lemma validator_eq: "(a :: manifest_validator) = b \<longleftrightarrow> errors a = errors b"
  by (cases a; cases b) simp

lemma validate_name_ok:
  "matchable v \<Longrightarrow>
   validate_name self v
     = (self\<lparr>errors := errors self @ errors (fst (validate_name ManifestValidator v))\<rparr>, None)"
  by (cases v) (auto simp: validate_name_def matchable_def append_error_def ManifestValidator_def)

lemma validate_version_ok:
  "matchable v \<Longrightarrow>
   validate_version self v
     = (self\<lparr>errors := errors self @ errors (fst (validate_version ManifestValidator v))\<rparr>, None)"
  by (cases v) (auto simp: validate_version_def matchable_def append_error_def ManifestValidator_def)

lemma validate_entry_point_ok:
  "matchable v \<Longrightarrow>
   validate_entry_point self v
     = (self\<lparr>errors := errors self @ errors (fst (validate_entry_point ManifestValidator v))\<rparr>, None)"
  by (cases v) (auto simp: validate_entry_point_def matchable_def append_error_def ManifestValidator_def)

lemma validate_requires_version_ok:
  "matchable v \<Longrightarrow>
   validate_requires_version self v
     = (self\<lparr>errors := errors self @ errors (fst (validate_requires_version ManifestValidator v))\<rparr>, None)"
  by (cases v)
     (auto simp: validate_requires_version_def matchable_def append_error_def ManifestValidator_def)

lemma validate_type_errors:
  "validate_type str_of self v
     = self\<lparr>errors := errors self @ errors (validate_type str_of ManifestValidator v)\<rparr>"
  by (simp add: validate_type_def append_error_def ManifestValidator_def)

lemma dependencies_loop_errors:
  "validate_dependencies_loop str_of self ds
     = self\<lparr>errors := errors self @ errors (validate_dependencies_loop str_of ManifestValidator ds)\<rparr>"
proof (induction ds arbitrary: self)
  case Nil
  show ?case by (simp add: ManifestValidator_def)
next
  case (Cons d ds)
  let ?s1 = "case d of PStr s \<Rightarrow> self
     | _ \<Rightarrow> append_error self (''Invalid dependency: '' @ py_format str_of d @ ''. Must be a string'')"
  let ?e1 = "case d of PStr s \<Rightarrow> ManifestValidator
     | _ \<Rightarrow> append_error ManifestValidator (''Invalid dependency: '' @ py_format str_of d @ ''. Must be a string'')"
  have a: "errors ?s1 = errors self @ errors ?e1"
    by (cases d) (auto simp: append_error_def ManifestValidator_def)
  have "validate_dependencies_loop str_of self (d # ds)
          = ?s1\<lparr>errors := errors ?s1 @ errors (validate_dependencies_loop str_of ManifestValidator ds)\<rparr>"
    using Cons.IH[of ?s1] by simp
  moreover have "validate_dependencies_loop str_of ManifestValidator (d # ds)
          = ?e1\<lparr>errors := errors ?e1 @ errors (validate_dependencies_loop str_of ManifestValidator ds)\<rparr>"
    using Cons.IH[of ?e1] by simp
  ultimately show ?case using a by (simp add: validator_eq)
qed

lemma manifest_dependencies_errors:
  "manifest_validate_dependencies str_of self v
     = self\<lparr>errors := errors self @ errors (manifest_validate_dependencies str_of ManifestValidator v)\<rparr>"
proof (cases v)
  case (PList ds)
  then show ?thesis
    using dependencies_loop_errors[of str_of self ds]
    by (simp add: manifest_validate_dependencies_def)
qed (simp_all add: manifest_validate_dependencies_def append_error_def ManifestValidator_def)


text \<open>
  Where the four pattern-checked fields are strings or falsy, the property holds. Let a
  manifest miss a required field, and let each of \<open>name\<close>, \<open>version\<close>,
  \<open>entry_point\<close> and \<open>requires_version\<close>, where present, be a string or a falsy value.
  Then \<open>validate\<close> returns \<open>False\<close>, the message naming the missing field is among
  \<open>get_errors()\<close>, and \<open>get_errors()\<close> is the concatenation of what each of the seven
  checks finds on its own: no check is skipped because an earlier one found a violation.
\<close>

lemma validate_missing_required_field:
  assumes "field \<in> set REQUIRED_FIELDS" and "\<not> dict_has manifest field"
    and "matchable (get_or manifest ''name'' PNone)"
    and "matchable (get_or manifest ''version'' PNone)"
    and "matchable (get_or manifest ''entry_point'' PNone)"
    and "matchable (get_or manifest ''requires_version'' (PStr ''0.0.0''))"
  shows "\<exists>self'. validate str_of self manifest = (self', Inr False)
    \<and> (''Missing required field: '' @ field) \<in> set (get_errors self')
    \<and> get_errors self' =
        errors (validate_required_fields ManifestValidator manifest)
      @ errors (fst (validate_name ManifestValidator (get_or manifest ''name'' PNone)))
      @ errors (fst (validate_version ManifestValidator (get_or manifest ''version'' PNone)))
      @ errors (validate_type str_of ManifestValidator (get_or manifest ''type'' PNone))
      @ errors (fst (validate_entry_point ManifestValidator
                       (get_or manifest ''entry_point'' PNone)))
      @ errors (manifest_validate_dependencies str_of ManifestValidator
                  (get_or manifest ''dependencies'' (PList [])))
      @ errors (fst (validate_requires_version ManifestValidator
                       (get_or manifest ''requires_version'' (PStr ''0.0.0''))))"
proof -
  let ?E = "errors (validate_required_fields ManifestValidator manifest)
      @ errors (fst (validate_name ManifestValidator (get_or manifest ''name'' PNone)))
      @ errors (fst (validate_version ManifestValidator (get_or manifest ''version'' PNone)))
      @ errors (validate_type str_of ManifestValidator (get_or manifest ''type'' PNone))
      @ errors (fst (validate_entry_point ManifestValidator
                       (get_or manifest ''entry_point'' PNone)))
      @ errors (manifest_validate_dependencies str_of ManifestValidator
                  (get_or manifest ''dependencies'' (PList [])))
      @ errors (fst (validate_requires_version ManifestValidator
                       (get_or manifest ''requires_version'' (PStr ''0.0.0''))))"
  have m: "(''Missing required field: '' @ field)
             \<in> set (errors (validate_required_fields ManifestValidator manifest))"
    using assms(1,2)
    by (simp add: validate_required_fields_def required_loop_errors ManifestValidator_def)
  then have ne: "?E \<noteq> []" by auto
  have r0: "errors (validate_required_fields (self\<lparr>errors := []\<rparr>) manifest)
              = errors (validate_required_fields ManifestValidator manifest)"
    using required_fields_errors[of "self\<lparr>errors := []\<rparr>" manifest] by simp
  have "validate str_of self manifest = (self\<lparr>errors := ?E\<rparr>, Inr (length ?E = 0))"
    unfolding validate_def Let_def
    apply (subst validate_name_ok[OF assms(3)])
    apply (subst validate_version_ok[OF assms(4)])
    apply (subst validate_type_errors)
    apply (subst validate_entry_point_ok[OF assms(5)])
    apply (subst manifest_dependencies_errors)
    apply (subst validate_requires_version_ok[OF assms(6)])
    apply (simp add: r0 validator_eq)
    done
  with ne m show ?thesis
    by (intro exI[of _ "self\<lparr>errors := ?E\<rparr>"]) (simp add: get_errors_def)
qed


lemma validate_missing_required_field_example:
  "validate str_of ManifestValidator
     [(''name'', PStr ''Bad Name''), (''version'', PStr ''1.0''), (''type'', PStr ''widget'')]
   = (\<lparr>errors =
        [''Missing required field: entry_point'',
         ''Invalid plugin name '' @ [CHR 0x27] @ ''Bad Name'' @ [CHR 0x27]
           @ ''. Must contain only lowercase letters, numbers, hyphens, and underscores'',
         ''Invalid version '' @ [CHR 0x27] @ ''1.0'' @ [CHR 0x27]
           @ ''. Must follow semantic versioning (e.g., 1.0.0)'',
         ''Invalid plugin type '' @ [CHR 0x27] @ ''widget'' @ [CHR 0x27]
           @ ''. Must be one of: hook, validator, quality_check, cli_utility, integration, custom'']\<rparr>,
      Inr False)"
proof -
  let ?m = "[(''name'', PStr ''Bad Name''), (''version'', PStr ''1.0''), (''type'', PStr ''widget'')]"
  have 1: "''entry_point'' \<in> set REQUIRED_FIELDS" by (simp add: REQUIRED_FIELDS_def)
  have 2: "\<not> dict_has ?m ''entry_point''" by (simp add: dict_has_def dict_get_def)
  have 3: "matchable (get_or ?m ''name'' PNone)"
    by (simp add: matchable_def get_or_def dict_get_def)
  have 4: "matchable (get_or ?m ''version'' PNone)"
    by (simp add: matchable_def get_or_def dict_get_def)
  have 5: "matchable (get_or ?m ''entry_point'' PNone)"
    by (simp add: matchable_def get_or_def dict_get_def)
  have 6: "matchable (get_or ?m ''requires_version'' (PStr ''0.0.0''))"
    by (simp add: matchable_def get_or_def dict_get_def)
  from validate_missing_required_field[OF 1 2 3 4 5 6, of str_of ManifestValidator]
  obtain self' where "validate str_of ManifestValidator ?m = (self', Inr False)" by blast
  then show ?thesis by (simp add: manifest_eval)
qed

text \<open>
  C8 on the code. A manifest that misses \<open>name\<close> and \<open>entry_point\<close> and whose
  \<open>version\<close> is the number \<open>1\<close> (a JSON or YAML number) does not make \<open>validate\<close>
  return \<open>False\<close>: \<^verbatim>\<open>re.match\<close> raises \<open>TypeError\<close> in the version check, the
  exception leaves \<open>validate\<close>, and the checks after it are not run (the invalid type is
  not reported).
\<close>

theorem validate_numeric_version_raises:
  "''name'' \<in> set REQUIRED_FIELDS
   \<and> \<not> dict_has [(''version'', PInt 1), (''type'', PStr ''no_such_type'')] ''name''
   \<and> (\<forall>str_of. validate str_of ManifestValidator
          [(''version'', PInt 1), (''type'', PStr ''no_such_type'')]
        = (\<lparr>errors = [''Missing required field: name'',
                        ''Missing required field: entry_point'']\<rparr>,
           Inl TypeError))"
  by (simp add: manifest_eval)


section \<open>Properties of the loader and the manager\<close>

lemmas loader_eval =
  PluginLoader_load_plugin_def version_check_def load_plugin_class_def check_plugin_class_def
  instantiate_def find_module_file_def rsplit_dot1_def replace_dots_def wrap_class_error_def
  wrap_load_error_def PluginLoader_def py_format_def get_or_def dict_get_def dict_has_def
  check_plugin_compatibility_def is_compatible_with_def semver_ge_def semver_lt_def
  semver_str_def str_int_def VersionChecker_def split_dot_def type_name_def
  demo_class_def demo_dir_def demo_info_def

lemmas manager_eval =
  PluginManager_def discover_plugins_def load_all_plugins_def find_plugin_info_def
  unload_plugin_def can_unload_def get_dependents_def dict_del_def exc_str_def
  is_dependency_error_def

lemma VersionChecker_1_0_0:
  "VersionChecker ''1.0.0'' = Inr \<lparr>system_version =
     \<lparr>original = ''1.0.0'', major = 1, minor = 0, patch = 0,
      prerelease = [], metadata = []\<rparr>\<rparr>"
  by (simp add: VersionChecker_def SemanticVersion_1_0_0)

lemma check_default_versions:
  "check_plugin_compatibility
     \<lparr>system_version = \<lparr>original = ''1.0.0'', major = 1, minor = 0, patch = 0,
                         prerelease = [], metadata = []\<rparr>\<rparr>
     name ''0.0.0''
   = Inr (False, ''Plugin '' @ name
            @ '' requires version 0.0.0 or higher (current version: 1.0.0)'')"
  unfolding check_plugin_compatibility_def SemanticVersion_0_0_0
  by (simp add: is_compatible_with_def semver_str_def str_int_def)

lemma check_plugin_class_error:
  "check_plugin_class ep u c m = Inl e \<Longrightarrow> \<exists>msg. e = PluginLoadError msg"
  by (auto simp: check_plugin_class_def wrap_class_error_def
           split: option.splits module_attr.splits if_splits)

lemma check_plugin_class_ok:
  "check_plugin_class ep u c m = Inr cls \<Longrightarrow> is_plugin_interface cls"
  by (auto simp: check_plugin_class_def wrap_class_error_def
           split: option.splits module_attr.splits if_splits)

lemma load_plugin_class_error:
  "load_plugin_class str_of self entry_point plugin_dir = (self', Inl e)
     \<Longrightarrow> \<exists>msg. e = PluginLoadError msg"
  by (auto simp: load_plugin_class_def wrap_class_error_def dict_has_def Let_def
           dest: check_plugin_class_error
           split: pyval.splits list.splits option.splits outcome.splits if_splits)

lemma load_plugin_class_ok:
  "load_plugin_class str_of self entry_point plugin_dir = (self', Inr cls)
     \<Longrightarrow> is_plugin_interface cls"
  by (auto simp: load_plugin_class_def wrap_class_error_def dict_has_def Let_def
           dest: check_plugin_class_ok
           split: pyval.splits list.splits option.splits outcome.splits if_splits)

lemma instantiate_error:
  "instantiate cls m name config = Inl (e, leftover) \<Longrightarrow>
     (\<exists>msg. e = PluginLoadError msg) \<and> (\<forall>inst. leftover = Some inst \<longrightarrow> status inst = LOADING)"
  by (auto simp: instantiate_def wrap_load_error_def Let_def split: outcome.splits if_splits)

lemma instantiate_ok:
  "instantiate cls m name config = Inr inst \<Longrightarrow>
     status inst = LOADED \<and> init_outcome cls m = Returns ()
     \<and> initialize_outcome cls m config = Returns True
     \<and> validate_outcome cls m config = Returns True"
  by (auto simp: instantiate_def wrap_load_error_def Let_def split: outcome.splits if_splits)

lemma load_plugin_after_check:
  assumes "dict_get (info_manifest plugin_info) ''name'' = Some name"
    and "dict_get (info_manifest plugin_info) ''entry_point'' = Some entry_point"
    and "version_check str_of self (info_manifest plugin_info) name = Inr (True, message)"
  shows "PluginLoader_load_plugin str_of self plugin_info config =
     (case load_plugin_class str_of self entry_point (info_directory plugin_info) of
        (self', Inl e) \<Rightarrow> (self', Inl (e, None))
      | (self', Inr cls) \<Rightarrow>
          (self', instantiate cls (info_manifest plugin_info) (py_format str_of name) config))"
  using assms by (simp add: PluginLoader_load_plugin_def Let_def)

lemma load_plugin_result_status:
  assumes "dict_get (info_manifest plugin_info) ''name'' = Some name"
    and "dict_get (info_manifest plugin_info) ''entry_point'' = Some entry_point"
    and "version_check str_of self (info_manifest plugin_info) name = Inr (True, message)"
  shows "(\<forall>self' e leftover.
            PluginLoader_load_plugin str_of self plugin_info config = (self', Inl (e, leftover))
            \<longrightarrow> (\<exists>msg. e = PluginLoadError msg)
                \<and> (\<forall>inst. leftover = Some inst \<longrightarrow> status inst = LOADING))
       \<and> (\<forall>self' inst.
            PluginLoader_load_plugin str_of self plugin_info config = (self', Inr inst)
            \<longrightarrow> status inst = LOADED
                \<and> (\<exists>cls. snd (load_plugin_class str_of self entry_point
                                  (info_directory plugin_info)) = Inr cls
                      \<and> is_plugin_interface cls
                      \<and> init_outcome cls (info_manifest plugin_info) = Returns ()
                      \<and> initialize_outcome cls (info_manifest plugin_info) config = Returns True
                      \<and> validate_outcome cls (info_manifest plugin_info) config = Returns True))"
proof -
  obtain s1 r1 where lc: "load_plugin_class str_of self entry_point (info_directory plugin_info)
      = (s1, r1)" by (cases "load_plugin_class str_of self entry_point (info_directory plugin_info)")
  note eq = load_plugin_after_check[OF assms, of config, unfolded lc]
  show ?thesis
  proof (cases r1)
    case (Inl e1)
    from load_plugin_class_error[OF lc[unfolded Inl]] obtain msg where "e1 = PluginLoadError msg"
      by blast
    with eq Inl show ?thesis by simp
  next
    case (Inr cls)
    from load_plugin_class_ok[OF lc[unfolded Inr]] have pi: "is_plugin_interface cls" .
    from eq Inr have e2: "PluginLoader_load_plugin str_of self plugin_info config
        = (s1, instantiate cls (info_manifest plugin_info) (py_format str_of name) config)"
      by simp
    show ?thesis
      unfolding e2 lc Inr using pi
      by (auto dest: instantiate_error instantiate_ok)
  qed
qed

lemma instantiate_cases:
  "instantiate cls m name config =
     (case init_outcome cls m of
        Raises x \<Rightarrow> Inl (wrap_load_error name x, None)
      | Returns u \<Rightarrow>
          if initialize_outcome cls m config = Returns True
             \<and> validate_outcome cls m config = Returns True
          then Inr \<lparr>inst_class = cls, inst_manifest = m, status = LOADED, cleanup_calls = 0\<rparr>
          else Inl (case initialize_outcome cls m config of
                      Raises x \<Rightarrow> wrap_load_error name x
                    | Returns ok \<Rightarrow>
                        if \<not> ok
                        then wrap_load_error name (''Plugin '' @ name @ '' initialization failed'')
                        else (case validate_outcome cls m config of
                                Raises x \<Rightarrow> wrap_load_error name x
                              | Returns ok' \<Rightarrow>
                                  wrap_load_error name (''Plugin '' @ name @ '' validation failed'')),
                    Some \<lparr>inst_class = cls, inst_manifest = m, status = LOADING,
                          cleanup_calls = 0\<rparr>))"
  by (auto simp: instantiate_def Let_def split: outcome.splits)

lemma capability_check_fails:
  assumes "entry_point = PStr ep" and "rsplit_dot1 ep = [module_path, cls_name]"
    and "if dict_has (loaded_modules self) (''plugin_'' @ dir_name d @ ''_'' @ module_path)
         then dict_get (loaded_modules self) (''plugin_'' @ dir_name d @ ''_'' @ module_path)
                = Some module
         else file_at d (find_module_file d module_path) = Some (Returns module)"
    and "dict_get module cls_name = Some (ClassAttr cls)" and "\<not> is_plugin_interface cls"
  shows "snd (load_plugin_class str_of self entry_point d)
           = Inl (PluginLoadError (cls_name @ '' must inherit from PluginInterface''))"
  using assms
  by (auto simp: load_plugin_class_def check_plugin_class_def Let_def split: if_splits)

text \<open>
  C1, as the code has it. Let the manifest hold a name and an entry point and let the
  version check pass. Then \<open>load_plugin\<close> does one of five things, decided by what the
  entry point resolves to. If the class cannot be resolved, it raises the
  \<open>PluginLoadError\<close> of the resolution and no instance exists; in particular, when the
  entry point names a class that is not a \<open>PluginInterface\<close> subclass, it raises
  "... must inherit from PluginInterface". If the constructor raises, it raises a
  \<open>PluginLoadError\<close> and no instance exists. If \<open>initialize\<close> or \<open>validate\<close> raises or
  returns false, it raises a \<open>PluginLoadError\<close> and the instance is left with status
  \<open>LOADING\<close>. Otherwise it returns the instance with status \<open>LOADED\<close>. No failure gives
  status \<open>FAILED\<close> or \<open>LOADED\<close>.
\<close>

theorem load_plugin_failure_leaves_loading:
  assumes "dict_get (info_manifest plugin_info) ''name'' = Some name"
    and "dict_get (info_manifest plugin_info) ''entry_point'' = Some entry_point"
    and "version_check str_of self (info_manifest plugin_info) name = Inr (True, message)"
  shows
   "(case load_plugin_class str_of self entry_point (info_directory plugin_info) of
       (self', Inl e) \<Rightarrow>
          (\<exists>msg. e = PluginLoadError msg)
          \<and> PluginLoader_load_plugin str_of self plugin_info config = (self', Inl (e, None))
     | (self', Inr cls) \<Rightarrow>
          is_plugin_interface cls
          \<and> (case init_outcome cls (info_manifest plugin_info) of
                Raises x \<Rightarrow>
                  (\<exists>msg. PluginLoader_load_plugin str_of self plugin_info config
                           = (self', Inl (PluginLoadError msg, None)))
              | Returns u \<Rightarrow>
                  if initialize_outcome cls (info_manifest plugin_info) config = Returns True
                     \<and> validate_outcome cls (info_manifest plugin_info) config = Returns True
                  then PluginLoader_load_plugin str_of self plugin_info config
                         = (self', Inr \<lparr>inst_class = cls,
                                         inst_manifest = info_manifest plugin_info,
                                         status = LOADED, cleanup_calls = 0\<rparr>)
                  else (\<exists>msg. PluginLoader_load_plugin str_of self plugin_info config
                           = (self', Inl (PluginLoadError msg,
                                          Some \<lparr>inst_class = cls,
                                                inst_manifest = info_manifest plugin_info,
                                                status = LOADING, cleanup_calls = 0\<rparr>)))))
    \<and> (\<forall>ep module_path cls_name module cls.
          entry_point = PStr ep \<and> rsplit_dot1 ep = [module_path, cls_name]
          \<and> (if dict_has (loaded_modules self)
                   (''plugin_'' @ dir_name (info_directory plugin_info) @ ''_'' @ module_path)
              then dict_get (loaded_modules self)
                     (''plugin_'' @ dir_name (info_directory plugin_info) @ ''_'' @ module_path)
                     = Some module
              else file_at (info_directory plugin_info)
                     (find_module_file (info_directory plugin_info) module_path)
                     = Some (Returns module))
          \<and> dict_get module cls_name = Some (ClassAttr cls) \<and> \<not> is_plugin_interface cls
          \<longrightarrow> snd (PluginLoader_load_plugin str_of self plugin_info config)
                = Inl (PluginLoadError (cls_name @ '' must inherit from PluginInterface''), None))
    \<and> (\<forall>self' e leftover.
            PluginLoader_load_plugin str_of self plugin_info config = (self', Inl (e, leftover))
            \<longrightarrow> (\<exists>msg. e = PluginLoadError msg)
                \<and> (\<forall>inst. leftover = Some inst \<longrightarrow> status inst = LOADING))
    \<and> (\<forall>self' inst.
            PluginLoader_load_plugin str_of self plugin_info config = (self', Inr inst)
            \<longrightarrow> status inst = LOADED)"
proof -
  let ?m = "info_manifest plugin_info" and ?d = "info_directory plugin_info"
  obtain s1 r1 where lc: "load_plugin_class str_of self entry_point ?d = (s1, r1)"
    by (cases "load_plugin_class str_of self entry_point ?d")
  note eq = load_plugin_after_check[OF assms, of config, unfolded lc]
  have A: "case load_plugin_class str_of self entry_point ?d of
       (self', Inl e) \<Rightarrow>
          (\<exists>msg. e = PluginLoadError msg)
          \<and> PluginLoader_load_plugin str_of self plugin_info config = (self', Inl (e, None))
     | (self', Inr cls) \<Rightarrow>
          is_plugin_interface cls
          \<and> (case init_outcome cls ?m of
                Raises x \<Rightarrow>
                  (\<exists>msg. PluginLoader_load_plugin str_of self plugin_info config
                           = (self', Inl (PluginLoadError msg, None)))
              | Returns u \<Rightarrow>
                  if initialize_outcome cls ?m config = Returns True
                     \<and> validate_outcome cls ?m config = Returns True
                  then PluginLoader_load_plugin str_of self plugin_info config
                         = (self', Inr \<lparr>inst_class = cls, inst_manifest = ?m,
                                         status = LOADED, cleanup_calls = 0\<rparr>)
                  else (\<exists>msg. PluginLoader_load_plugin str_of self plugin_info config
                           = (self', Inl (PluginLoadError msg,
                                          Some \<lparr>inst_class = cls, inst_manifest = ?m,
                                                status = LOADING, cleanup_calls = 0\<rparr>))))"
  proof (cases r1)
    case (Inl e1)
    from load_plugin_class_error[OF lc[unfolded Inl]] obtain msg where "e1 = PluginLoadError msg"
      by blast
    with eq Inl lc show ?thesis by simp
  next
    case (Inr cls)
    from load_plugin_class_ok[OF lc[unfolded Inr]] have pi: "is_plugin_interface cls" .
    from eq Inr have e2: "PluginLoader_load_plugin str_of self plugin_info config
        = (s1, instantiate cls ?m (py_format str_of name) config)"
      by simp
    show ?thesis
      unfolding lc Inr e2 instantiate_cases using pi
      by (auto simp: wrap_load_error_def split: outcome.splits)
  qed
  have B: "\<forall>ep module_path cls_name module cls.
          entry_point = PStr ep \<and> rsplit_dot1 ep = [module_path, cls_name]
          \<and> (if dict_has (loaded_modules self)
                   (''plugin_'' @ dir_name ?d @ ''_'' @ module_path)
              then dict_get (loaded_modules self)
                     (''plugin_'' @ dir_name ?d @ ''_'' @ module_path) = Some module
              else file_at ?d (find_module_file ?d module_path) = Some (Returns module))
          \<and> dict_get module cls_name = Some (ClassAttr cls) \<and> \<not> is_plugin_interface cls
          \<longrightarrow> snd (PluginLoader_load_plugin str_of self plugin_info config)
                = Inl (PluginLoadError (cls_name @ '' must inherit from PluginInterface''), None)"
  proof (intro allI impI, elim conjE)
    fix ep module_path cls_name module cls
    assume h: "entry_point = PStr ep" "rsplit_dot1 ep = [module_path, cls_name]"
      "if dict_has (loaded_modules self) (''plugin_'' @ dir_name ?d @ ''_'' @ module_path)
       then dict_get (loaded_modules self) (''plugin_'' @ dir_name ?d @ ''_'' @ module_path)
              = Some module
       else file_at ?d (find_module_file ?d module_path) = Some (Returns module)"
      "dict_get module cls_name = Some (ClassAttr cls)" "\<not> is_plugin_interface cls"
    from capability_check_fails[OF h, of str_of] lc
    have "r1 = Inl (PluginLoadError (cls_name @ '' must inherit from PluginInterface''))"
      by simp
    with eq show "snd (PluginLoader_load_plugin str_of self plugin_info config)
                = Inl (PluginLoadError (cls_name @ '' must inherit from PluginInterface''), None)"
      by simp
  qed
  from load_plugin_result_status[OF assms, of config]
  have C: "\<forall>self' e leftover.
            PluginLoader_load_plugin str_of self plugin_info config = (self', Inl (e, leftover))
            \<longrightarrow> (\<exists>msg. e = PluginLoadError msg)
                \<and> (\<forall>inst. leftover = Some inst \<longrightarrow> status inst = LOADING)"
    and D: "\<forall>self' inst.
            PluginLoader_load_plugin str_of self plugin_info config = (self', Inr inst)
            \<longrightarrow> status inst = LOADED"
    by blast+
  from A B C D show ?thesis by (intro conjI)
qed


text \<open>
  C3. The default host version parses with major 1 and the default required version with
  major 0, so they are not compatible: \<open>check_plugin_compatibility\<close> returns
  \<open>(False, message)\<close> for every plugin name, and \<open>load_plugin\<close> raises
  \<open>PluginLoadError\<close> with that message for every plugin whose manifest has a name and
  no \<open>requires_version\<close>, before anything is resolved or instantiated.
\<close>

theorem default_requires_version_rejected:
  assumes "dict_get (info_manifest plugin_info) ''name'' = Some name"
    and "dict_get (info_manifest plugin_info) ''requires_version'' = None"
  shows "\<exists>vc required.
           VersionChecker ''1.0.0'' = Inr vc \<and> SemanticVersion ''0.0.0'' = Inr required
         \<and> major (system_version vc) = 1 \<and> major required = 0
         \<and> \<not> is_compatible_with (system_version vc) required
         \<and> check_plugin_compatibility vc plugin_name ''0.0.0''
             = Inr (False, ''Plugin '' @ plugin_name
                      @ '' requires version 0.0.0 or higher (current version: 1.0.0)'')
         \<and> PluginLoader_load_plugin str_of (self\<lparr>version_checker := vc\<rparr>) plugin_info config
             = (self\<lparr>version_checker := vc\<rparr>,
                Inl (PluginLoadError (''Plugin '' @ py_format str_of name
                       @ '' requires version 0.0.0 or higher (current version: 1.0.0)''),
                     None))"
proof -
  let ?vc = "\<lparr>system_version = \<lparr>original = ''1.0.0'', major = 1, minor = 0, patch = 0,
                         prerelease = [], metadata = []\<rparr>\<rparr>"
  let ?r = "\<lparr>original = ''0.0.0'', major = 0, minor = 0, patch = 0,
              prerelease = [], metadata = []\<rparr>"
  have "PluginLoader_load_plugin str_of (self\<lparr>version_checker := ?vc\<rparr>) plugin_info config
             = (self\<lparr>version_checker := ?vc\<rparr>,
                Inl (PluginLoadError (''Plugin '' @ py_format str_of name
                       @ '' requires version 0.0.0 or higher (current version: 1.0.0)''),
                     None))"
    using assms
    by (simp add: PluginLoader_load_plugin_def version_check_def get_or_def
          check_default_versions Let_def)
  moreover have "\<not> is_compatible_with (system_version ?vc) ?r"
    by (simp add: is_compatible_with_def)
  ultimately show ?thesis
    using VersionChecker_1_0_0 SemanticVersion_0_0_0 check_default_versions[of plugin_name]
    by (intro exI[of _ ?vc] exI[of _ ?r]) simp
qed


text \<open>
  C1 as stated fails: for a plugin whose \<open>initialize\<close> returns false the version check
  passes, \<open>load_plugin\<close> raises \<open>PluginLoadError\<close>, and the instance is left with status
  \<open>LOADING\<close>, not \<open>FAILED\<close>. Nothing in the repository assigns \<open>FAILED\<close>.
\<close>

theorem load_plugin_failure_leaves_loading_counterexample:
  "version_check (\<lambda>v. []) (PluginLoader host_1_0_0)
       (info_manifest (demo_info ''a'' [] False)) (PStr ''a'')
     = Inr (True, ''Plugin a is compatible (requires 1.0.0, have 1.0.0)'')
   \<and> snd (PluginLoader_load_plugin (\<lambda>v. []) (PluginLoader host_1_0_0)
            (demo_info ''a'' [] False) [])
     = Inl (PluginLoadError ''Failed to load plugin a: Plugin a initialization failed'',
            Some \<lparr>inst_class = demo_class False,
                  inst_manifest = info_manifest (demo_info ''a'' [] False),
                  status = LOADING, cleanup_calls = 0\<rparr>)
   \<and> LOADING \<noteq> FAILED"
  by (simp add: loader_eval host_1_0_0_def SemanticVersion_1_0_0)

theorem load_plugin_failure_leaves_loading_witness:
  "snd (PluginLoader_load_plugin (\<lambda>v. []) (PluginLoader host_1_0_0)
          (class_info ''a'' (behaving False (Returns ()) (Returns True) (Returns True))) [])
     = Inl (PluginLoadError ''Plugin must inherit from PluginInterface'', None)
   \<and> snd (PluginLoader_load_plugin (\<lambda>v. []) (PluginLoader host_1_0_0)
          (class_info ''a'' (behaving True (Raises ''boom'') (Returns True) (Returns True))) [])
     = Inl (PluginLoadError ''Failed to load plugin a: boom'', None)
   \<and> snd (PluginLoader_load_plugin (\<lambda>v. []) (PluginLoader host_1_0_0)
          (class_info ''a'' (behaving True (Returns ()) (Returns False) (Returns True))) [])
     = Inl (PluginLoadError ''Failed to load plugin a: Plugin a initialization failed'',
            Some \<lparr>inst_class = behaving True (Returns ()) (Returns False) (Returns True),
                  inst_manifest = info_manifest (class_info ''a''
                     (behaving True (Returns ()) (Returns False) (Returns True))),
                  status = LOADING, cleanup_calls = 0\<rparr>)
   \<and> snd (PluginLoader_load_plugin (\<lambda>v. []) (PluginLoader host_1_0_0)
          (class_info ''a'' (behaving True (Returns ()) (Raises ''bad config'') (Returns True))) [])
     = Inl (PluginLoadError ''Failed to load plugin a: bad config'',
            Some \<lparr>inst_class = behaving True (Returns ()) (Raises ''bad config'') (Returns True),
                  inst_manifest = info_manifest (class_info ''a''
                     (behaving True (Returns ()) (Raises ''bad config'') (Returns True))),
                  status = LOADING, cleanup_calls = 0\<rparr>)
   \<and> snd (PluginLoader_load_plugin (\<lambda>v. []) (PluginLoader host_1_0_0)
          (class_info ''a'' (behaving True (Returns ()) (Returns True) (Returns False))) [])
     = Inl (PluginLoadError ''Failed to load plugin a: Plugin a validation failed'',
            Some \<lparr>inst_class = behaving True (Returns ()) (Returns True) (Returns False),
                  inst_manifest = info_manifest (class_info ''a''
                     (behaving True (Returns ()) (Returns True) (Returns False))),
                  status = LOADING, cleanup_calls = 0\<rparr>)
   \<and> snd (PluginLoader_load_plugin (\<lambda>v. []) (PluginLoader host_1_0_0)
          (class_info ''a'' (behaving True (Returns ()) (Returns True) (Raises ''not ready''))) [])
     = Inl (PluginLoadError ''Failed to load plugin a: not ready'',
            Some \<lparr>inst_class = behaving True (Returns ()) (Returns True) (Raises ''not ready''),
                  inst_manifest = info_manifest (class_info ''a''
                     (behaving True (Returns ()) (Returns True) (Raises ''not ready''))),
                  status = LOADING, cleanup_calls = 0\<rparr>)
   \<and> snd (PluginLoader_load_plugin (\<lambda>v. []) (PluginLoader host_1_0_0)
          (class_info ''a'' (behaving True (Returns ()) (Returns True) (Returns True))) [])
     = Inr \<lparr>inst_class = behaving True (Returns ()) (Returns True) (Returns True),
            inst_manifest = info_manifest (class_info ''a''
               (behaving True (Returns ()) (Returns True) (Returns True))),
            status = LOADED, cleanup_calls = 0\<rparr>"
proof -
  let ?ld = "PluginLoader host_1_0_0"
  have 1: "\<And>cls. dict_get (info_manifest (class_info ''a'' cls)) ''name'' = Some (PStr ''a'')"
    by (simp add: class_info_def dict_get_def)
  have 2: "\<And>cls. dict_get (info_manifest (class_info ''a'' cls)) ''entry_point''
                   = Some (PStr ''main.Plugin'')"
    by (simp add: class_info_def dict_get_def)
  have 3: "\<And>cls. version_check (\<lambda>v. []) ?ld (info_manifest (class_info ''a'' cls)) (PStr ''a'')
             = Inr (True, ''Plugin a is compatible (requires 1.0.0, have 1.0.0)'')"
    by (simp add: loader_eval class_info_def host_1_0_0_def SemanticVersion_1_0_0)
  note T = load_plugin_failure_leaves_loading[OF 1 2 3, THEN conjunct1]
  note ev = load_plugin_class_def check_plugin_class_def find_module_file_def rsplit_dot1_def
    replace_dots_def PluginLoader_def dict_get_def dict_has_def class_info_def class_dir_def
    behaving_def wrap_class_error_def
  have a: "snd (PluginLoader_load_plugin (\<lambda>v. []) ?ld
          (class_info ''a'' (behaving False (Returns ()) (Returns True) (Returns True))) [])
     = Inl (PluginLoadError ''Plugin must inherit from PluginInterface'', None)"
    using T[of "behaving False (Returns ()) (Returns True) (Returns True)" "[]"]
    by (simp add: ev)
  have b: "snd (PluginLoader_load_plugin (\<lambda>v. []) ?ld
          (class_info ''a'' (behaving True (Raises ''boom'') (Returns True) (Returns True))) [])
     = Inl (PluginLoadError ''Failed to load plugin a: boom'', None)"
    by (simp add: loader_eval class_info_def class_dir_def behaving_def host_1_0_0_def
          SemanticVersion_1_0_0)
  show ?thesis
    using a b
    by (simp add: loader_eval class_info_def class_dir_def behaving_def host_1_0_0_def
          SemanticVersion_1_0_0)
qed

theorem default_requires_version_rejected_witness:
  "PluginLoader_load_plugin (\<lambda>v. []) (PluginLoader host_1_0_0)
     \<lparr>info_manifest = [(''name'', PStr ''demo''), (''version'', PStr ''0.1.0''),
                        (''type'', PStr ''custom''), (''entry_point'', PStr ''main.Plugin'')],
      info_directory = demo_dir ''demo'' True\<rparr> []
   = (PluginLoader host_1_0_0,
      Inl (PluginLoadError
             ''Plugin demo requires version 0.0.0 or higher (current version: 1.0.0)'', None))"
proof -
  let ?info = "\<lparr>info_manifest = [(''name'', PStr ''demo''), (''version'', PStr ''0.1.0''),
                        (''type'', PStr ''custom''), (''entry_point'', PStr ''main.Plugin'')],
      info_directory = demo_dir ''demo'' True\<rparr>"
  have 1: "dict_get (info_manifest ?info) ''name'' = Some (PStr ''demo'')"
    by (simp add: dict_get_def)
  have 2: "dict_get (info_manifest ?info) ''requires_version'' = None"
    by (simp add: dict_get_def)
  from default_requires_version_rejected[OF 1 2, of "''demo''" "\<lambda>v. []" "PluginLoader host_1_0_0" "[]"]
  show ?thesis
    by (auto simp: PluginLoader_def host_1_0_0_def VersionChecker_1_0_0 py_format_def)
qed

text \<open>
  C2 on the code. Two plugins \<open>a\<close> and \<open>b\<close>, \<open>b\<close> depending on \<open>a\<close>, are loaded by
  \<open>load_all_plugins\<close>. Unloading \<open>a\<close> fails, naming \<open>b\<close>; unloading \<open>b\<close> succeeds,
  \<open>cleanup\<close> is called once and the status is \<open>UNLOADED\<close>; unloading \<open>a\<close> after that
  still fails naming \<open>b\<close>, because \<open>can_unload\<close> reads the dependency graph, which
  \<open>unload_plugin\<close> never changes.
\<close>

theorem unload_after_dependent_still_blocked:
  "\<exists>m0 m1 m2 inst_b.
     PluginManager [demo_info ''a'' [] True, demo_info ''b'' [''a''] True] ''1.0.0'' = Inr m0
   \<and> load_all_plugins (\<lambda>v. []) m0 None = (m1, None)
   \<and> map fst (loaded_plugins m1) = [''a'', ''b'']
   \<and> snd (unload_plugin m1 ''a'') = Inl (PluginLoadError ''Cannot unload a: required by b'')
   \<and> unload_plugin m1 ''b'' = (m2, Inr (Some inst_b))
   \<and> status inst_b = UNLOADED \<and> cleanup_calls inst_b = 1
   \<and> map fst (loaded_plugins m2) = [''a'']
   \<and> unload_plugin m2 ''a'' = (m2, Inl (PluginLoadError ''Cannot unload a: required by b''))"
  by (simp add: manager_eval loader_eval resolver_eval SemanticVersion_1_0_0)

lemma unload_plugin_keeps_resolver:
  "dependency_resolver (fst (unload_plugin self plugin_name)) = dependency_resolver self"
  by (simp add: unload_plugin_def split: option.splits outcome.splits)


end
